theory Spec2Isabelle
  imports Main
begin

section \<open>Memory forensics triage wrapper (mf\_triage.py)\<close>

text \<open>
  The script locates a Volatility 3 executable, runs a list of plugins against a memory
  image, captures each plugin's output in a file of the case directory and writes an
  index document. Everything it does is an effect, so the model threads an explicit
  state (file system, standard streams, a log of file-system operations) through the
  calls, takes the outside world (what a spawned process does, the clock) as an
  environment, and returns every exception of the source as a value.

  What the model leaves out: permissions, symbolic links and the meaning of double dots
  in paths (a path is identified by its text), failures of writing to the standard
  streams, and a child process that never ends (a process that starts is given by its
  return code and output). Paths follow \<^verbatim>\<open>pathlib\<close> on POSIX.

  Strings are byte strings: the three non-ASCII characters of the source's messages are
  written as their UTF-8 bytes. Replacing the ASCII dot acts the same on code points and
  on UTF-8 bytes, since no byte of a multi-byte sequence is an ASCII byte.
\<close>

subsection \<open>Strings\<close>

text \<open>\<^verbatim>\<open>s.replace(a, b)\<close> for one-character \<open>a\<close> and \<open>b\<close>.\<close>

definition replace_char :: "char \<Rightarrow> char \<Rightarrow> string \<Rightarrow> string" where
  "replace_char a b s = map (\<lambda>c. if c = a then b else c) s"

text \<open>\<^verbatim>\<open>sep.join(xs)\<close>.\<close>

fun join :: "string \<Rightarrow> string list \<Rightarrow> string" where
  "join sep [] = []"
| "join sep [x] = x"
| "join sep (x # y # ys) = x @ sep @ join sep (y # ys)"

text \<open>\<^verbatim>\<open>s.split(sep)\<close> for a one-character separator: never the empty list.\<close>

fun split_on :: "char \<Rightarrow> string \<Rightarrow> string list" where
  "split_on sep [] = [[]]"
| "split_on sep (c # cs) =
     (if c = sep then [] # split_on sep cs
      else (case split_on sep cs of
              w # ws \<Rightarrow> (c # w) # ws
            | [] \<Rightarrow> [[c]]))"

subsection \<open>Paths (pathlib on POSIX)\<close>

text \<open>
  A \<^verbatim>\<open>pathlib.Path\<close> is its root (empty, one slash, or two slashes when the
  text starts with exactly two) and its components; empty components and single dots are
  dropped when the text is parsed, double dots are kept.
\<close>

record path =
  anchor :: string
  parts :: "string list"

definition root_of :: "string \<Rightarrow> string" where
  "root_of s =
     (if take 1 s = ''/'' then
        (if take 2 s = ''//'' \<and> take 3 s \<noteq> ''///'' then ''//'' else ''/'')
      else [])"

definition Path :: "string \<Rightarrow> path" where
  "Path s = \<lparr>anchor = root_of s,
             parts = filter (\<lambda>x. x \<noteq> [] \<and> x \<noteq> ''.'') (split_on CHR ''/'' s)\<rparr>"

text \<open>\<^verbatim>\<open>str(p)\<close>.\<close>

definition str_path :: "path \<Rightarrow> string" where
  "str_path p =
     (if anchor p = [] \<and> parts p = [] then ''.'' else anchor p @ join ''/'' (parts p))"

text \<open>\<^verbatim>\<open>p / seg\<close>: an absolute segment replaces the path.\<close>

definition joinpath :: "path \<Rightarrow> string \<Rightarrow> path" where
  "joinpath p seg =
     (if root_of seg \<noteq> [] then Path seg
      else \<lparr>anchor = anchor p, parts = parts p @ parts (Path seg)\<rparr>)"

text \<open>\<^verbatim>\<open>p.parent\<close>: the root and the empty path are their own parents.\<close>

definition parent :: "path \<Rightarrow> path" where
  "parent p = p\<lparr>parts := butlast (parts p)\<rparr>"

subsection \<open>Exceptions, file system and state\<close>

datatype exn =
    FileNotFoundError
  | FileExistsError
  | NotADirectoryError
  | IsADirectoryError
  | PermissionError

datatype node = Dir | File string

text \<open>
  The log records each operation that changes the file system, with the path it acts on
  as the text of the path: a directory made, a file opened for writing (created or
  truncated), the output of a child process written through an open file, and a text
  written in one call.
\<close>

datatype event =
    MkDir string
  | OpenW string
  | ChildWrite "string list" string
  | WriteText string string


text \<open>
  The file system maps the text of a path to what is there; paths are identified by
  their text (no symbolic links, no resolution of double dots), permissions are not
  modelled, and the roots and the current directory always exist.
\<close>

record state =
  nodes :: "string \<rightharpoonup> node"
  out :: "string list"
  err :: "string list"
  log :: "event list"

definition is_dir :: "state \<Rightarrow> path \<Rightarrow> bool" where
  "is_dir s p = (parts p = [] \<or> nodes s (str_path p) = Some Dir)"

definition parent_error :: "state \<Rightarrow> path \<Rightarrow> exn" where
  "parent_error s p =
     (case nodes s (str_path (parent p)) of
        Some (File c) \<Rightarrow> NotADirectoryError
      | _ \<Rightarrow> FileNotFoundError)"

text \<open>\<^verbatim>\<open>os.mkdir(p)\<close>.\<close>

definition os_mkdir :: "path \<Rightarrow> state \<Rightarrow> exn option \<times> state" where
  "os_mkdir p s =
     (if parts p = [] then (Some FileExistsError, s)
      else if \<not> is_dir s (parent p) then (Some (parent_error s p), s)
      else (case nodes s (str_path p) of
              Some n \<Rightarrow> (Some FileExistsError, s)
            | None \<Rightarrow>
                (None, s\<lparr>nodes := (nodes s)(str_path p \<mapsto> Dir),
                          log := log s @ [MkDir (str_path p)]\<rparr>)))"

text \<open>
  \<^verbatim>\<open>Path.mkdir(parents, exist_ok)\<close>: a missing parent is made first when
  \<open>parents\<close> is set; any other error is swallowed when \<open>exist_ok\<close> is set
  and the path is a directory.
\<close>

definition mkdir_single :: "bool \<Rightarrow> path \<Rightarrow> state \<Rightarrow> exn option \<times> state" where
  "mkdir_single exist_ok p s =
     (case os_mkdir p s of
        (None, s1) \<Rightarrow> (None, s1)
      | (Some e, s1) \<Rightarrow>
          if e = FileNotFoundError then (Some e, s1)
          else if \<not> exist_ok \<or> \<not> is_dir s1 p then (Some e, s1)
          else (None, s1))"

function mkdir_parents :: "bool \<Rightarrow> path \<Rightarrow> state \<Rightarrow> exn option \<times> state" where
  "mkdir_parents exist_ok p s =
     (case os_mkdir p s of
        (None, s1) \<Rightarrow> (None, s1)
      | (Some e, s1) \<Rightarrow>
          if e = FileNotFoundError then
            (if parts p = [] then (Some e, s1)
             else (case mkdir_parents True (parent p) s1 of
                     (Some e', s2) \<Rightarrow> (Some e', s2)
                   | (None, s2) \<Rightarrow> mkdir_single exist_ok p s2))
          else if \<not> exist_ok \<or> \<not> is_dir s1 p then (Some e, s1)
          else (None, s1))"
  by pat_completeness auto
termination
  by (relation "measure (\<lambda>(e, p, s). length (parts p))") (auto simp: parent_def)

definition mkdir :: "bool \<Rightarrow> bool \<Rightarrow> path \<Rightarrow> state \<Rightarrow> exn option \<times> state" where
  "mkdir parents exist_ok p s =
     (if parents then mkdir_parents exist_ok p s else mkdir_single exist_ok p s)"

text \<open>\<^verbatim>\<open>open(p, "w")\<close>: the file is created or truncated.\<close>

definition open_w :: "path \<Rightarrow> state \<Rightarrow> exn option \<times> state" where
  "open_w p s =
     (if parts p = [] then (Some IsADirectoryError, s)
      else if \<not> is_dir s (parent p) then (Some (parent_error s p), s)
      else (case nodes s (str_path p) of
              Some Dir \<Rightarrow> (Some IsADirectoryError, s)
            | _ \<Rightarrow>
                (None, s\<lparr>nodes := (nodes s)(str_path p \<mapsto> File []),
                          log := log s @ [OpenW (str_path p)]\<rparr>)))"

text \<open>What a child process writes to a file it was given open: appended to its content.\<close>

definition child_write :: "string list \<Rightarrow> path \<Rightarrow> string \<Rightarrow> state \<Rightarrow> state" where
  "child_write argv p d s =
     s\<lparr>nodes := (nodes s)(str_path p \<mapsto>
                   File ((case nodes s (str_path p) of Some (File c) \<Rightarrow> c | _ \<Rightarrow> []) @ d)),
       log := log s @ [ChildWrite argv (str_path p)]\<rparr>"

text \<open>\<^verbatim>\<open>Path.write_text(data)\<close>: open for writing, write, close.\<close>

definition write_text :: "path \<Rightarrow> string \<Rightarrow> state \<Rightarrow> exn option \<times> state" where
  "write_text p d s =
     (if parts p = [] then (Some IsADirectoryError, s)
      else if \<not> is_dir s (parent p) then (Some (parent_error s p), s)
      else (case nodes s (str_path p) of
              Some Dir \<Rightarrow> (Some IsADirectoryError, s)
            | _ \<Rightarrow>
                (None, s\<lparr>nodes := (nodes s)(str_path p \<mapsto> File d),
                          log := log s @ [WriteText (str_path p) d]\<rparr>)))"

subsection \<open>The environment\<close>

text \<open>
  \<^verbatim>\<open>subprocess.run(argv, ...)\<close> either fails to start the process, raising an
  exception, or waits for it and gives its return code and what it wrote to standard
  output and standard error together. \<open>strftime\<close> is the local time, already formatted.
\<close>

datatype spawn_result = Completed int string | SpawnError exn

record env =
  spawn :: "string list \<Rightarrow> spawn_result"
  strftime :: string

subsection \<open>The script\<close>

definition DEFAULT_PLUGINS :: "string list" where
  "DEFAULT_PLUGINS =
     [''windows.pslist'', ''windows.pstree'', ''windows.netscan'',
      ''windows.dlllist'', ''windows.cmdline'', ''windows.malfind'']"

definition CANDIDATE_CMDS :: "string list" where
  "CANDIDATE_CMDS = [''vol'', ''vol.py'', ''volatility3'']"

text \<open>
  \<open>find_vol\<close>: \<open>Inr (Some c)\<close> is the command returned, \<open>Inr None\<close> is
  \<^verbatim>\<open>None\<close>, \<open>Inl e\<close> an exception that leaves the function.
\<close>

fun find_vol_from :: "env \<Rightarrow> string list \<Rightarrow> exn + string option" where
  "find_vol_from en [] = Inr None"
| "find_vol_from en (c # cs) =
     (case spawn en [c, ''-h''] of
        Completed rc output \<Rightarrow>
          if rc = 0 \<or> rc = 1 then Inr (Some c) else find_vol_from en cs
      | SpawnError e \<Rightarrow>
          if e = FileNotFoundError then find_vol_from en cs else Inl e)"

definition find_vol :: "env \<Rightarrow> exn + string option" where
  "find_vol en = find_vol_from en CANDIDATE_CMDS"

text \<open>\<open>run_plugin\<close>; the return code of the child is dropped.\<close>

definition plugin_args :: "string \<Rightarrow> string \<Rightarrow> string \<Rightarrow> string list option \<Rightarrow> string list" where
  "plugin_args volcmd img plugin kargs =
     (case kargs of
        None \<Rightarrow> [volcmd, ''-f'', img, plugin]
      | Some ks \<Rightarrow>
          if ks \<noteq> [] then [volcmd, ''-f'', img, plugin] @ ks
          else [volcmd, ''-f'', img, plugin])"

definition run_plugin ::
  "env \<Rightarrow> string \<Rightarrow> string \<Rightarrow> string \<Rightarrow> path \<Rightarrow> string list option \<Rightarrow> state
     \<Rightarrow> exn option \<times> state" where
  "run_plugin en volcmd img plugin outpath kargs s =
     (case open_w outpath s of
        (Some e, s1) \<Rightarrow> (Some e, s1)
      | (None, s1) \<Rightarrow>
          (case spawn en (plugin_args volcmd img plugin kargs) of
             Completed rc output \<Rightarrow>
               (None, child_write (plugin_args volcmd img plugin kargs) outpath output s1)
           | SpawnError e \<Rightarrow> (Some e, s1)))"

text \<open>The command line after \<^verbatim>\<open>argparse\<close>: \<open>--plugins\<close> may be absent.\<close>

record cli =
  cli_file :: string
  cli_outdir :: string
  cli_plugins :: "string list option"

definition args_plugins :: "cli \<Rightarrow> string list" where
  "args_plugins a = (case cli_plugins a of None \<Rightarrow> DEFAULT_PLUGINS | Some ps \<Rightarrow> ps)"

definition safe_name :: "string \<Rightarrow> string" where
  "safe_name plg = replace_char CHR ''.'' CHR ''_'' plg"

definition target_of :: "path \<Rightarrow> string \<Rightarrow> path" where
  "target_of outdir plg = joinpath (joinpath outdir ''raw'') (safe_name plg @ ''.txt'')"

definition arrow :: string where
  "arrow = [CHR 0xE2, CHR 0x86, CHR 0x92]"

definition em_dash :: string where
  "em_dash = [CHR 0xE2, CHR 0x80, CHR 0x94]"

definition check_mark :: string where
  "check_mark = [CHR 0xE2, CHR 0x9C, CHR 0x93]"

definition running_msg :: "path \<Rightarrow> string \<Rightarrow> string" where
  "running_msg outdir plg =
     ''[*] Running '' @ plg @ '' '' @ arrow @ '' '' @ str_path (target_of outdir plg)"

definition summary_entry :: "path \<Rightarrow> string \<Rightarrow> string" where
  "summary_entry outdir plg = ''- `'' @ str_path (target_of outdir plg) @ ''`''"

text \<open>The loop of \<open>main\<close> over the plugins, on the state and the summary list.\<close>

fun plugin_loop ::
  "env \<Rightarrow> string \<Rightarrow> string \<Rightarrow> path \<Rightarrow> string list \<Rightarrow> state \<Rightarrow> string list
     \<Rightarrow> exn option \<times> state \<times> string list" where
  "plugin_loop en vol img outdir [] s summary = (None, s, summary)"
| "plugin_loop en vol img outdir (plg # rest) s summary =
     (case run_plugin en vol img plg (target_of outdir plg) None
             (s\<lparr>out := out s @ [running_msg outdir plg]\<rparr>) of
        (Some e, s1) \<Rightarrow> (Some e, s1, summary)
      | (None, s1) \<Rightarrow>
          plugin_loop en vol img outdir rest s1 (summary @ [summary_entry outdir plg]))"

definition saved_msg :: "path \<Rightarrow> string" where
  "saved_msg outdir = ''['' @ check_mark @ ''] Case saved to: '' @ str_path outdir"

definition not_found_msg :: string where
  "not_found_msg =
     ''[!] Could not find Volatility 3 (tried: vol, vol.py, volatility3). Add it to PATH.''"

text \<open>The value of \<^verbatim>\<open>textwrap.dedent(...).strip()\<close> on the literal of the source.\<close>

definition hints :: string where
  "hints =
     ''## Quick Review Hints\<newline>'' @
     ''- pslist / pstree: odd parent-child pairs, short-lived procs, unusual names.\<newline>'' @
     ''- netscan: unexpected outbound connections, high ports, shells with net.\<newline>'' @
     ''- dlllist: unsigned or unusual DLL paths in user-writable dirs.\<newline>'' @
     ''- cmdline: suspicious flags, base64 strings, LOLBins.\<newline>'' @
     ''- malfind: injected code regions (follow up only in a lab environment).''"

definition summary_head :: "env \<Rightarrow> string \<Rightarrow> string \<Rightarrow> string list \<Rightarrow> string list" where
  "summary_head en img vol plugins =
     [''# Memory Forensics Triage '' @ em_dash @ '' '' @ strftime en,
      ''- Image: `'' @ img @ ''`'',
      ''- Volatility: `'' @ vol @ ''`'',
      ''- Plugins: '' @ join '', '' plugins,
      [],
      ''## Outputs'']"

definition index_text :: "string list \<Rightarrow> string" where
  "index_text summary = join ''\<newline>'' summary @ ''\<newline>\<newline>'' @ hints @ ''\<newline>''"

text \<open>
  How the program ends: \<open>Exit n\<close> is the exit status (\<open>sys.exit(2)\<close>, or 0 when
  \<open>main\<close> returns), \<open>Uncaught e\<close> an exception nobody catches.
\<close>

datatype outcome = Exit int | Uncaught exn

definition main :: "env \<Rightarrow> cli \<Rightarrow> state \<Rightarrow> outcome \<times> state" where
  "main en a s =
     (case find_vol en of
        Inl e \<Rightarrow> (Uncaught e, s)
      | Inr None \<Rightarrow> (Exit 2, s\<lparr>err := err s @ [not_found_msg]\<rparr>)
      | Inr (Some vol) \<Rightarrow>
          if vol = [] then (Exit 2, s\<lparr>err := err s @ [not_found_msg]\<rparr>)
          else
            (case mkdir True True (Path (cli_outdir a)) s of
               (Some e, s1) \<Rightarrow> (Uncaught e, s1)
             | (None, s1) \<Rightarrow>
                 (case mkdir False True (joinpath (Path (cli_outdir a)) ''raw'') s1 of
                    (Some e, s2) \<Rightarrow> (Uncaught e, s2)
                  | (None, s2) \<Rightarrow>
                      (case plugin_loop en vol (cli_file a) (Path (cli_outdir a))
                              (args_plugins a) s2
                              (summary_head en (cli_file a) vol (args_plugins a)) of
                         (Some e, s3, summary) \<Rightarrow> (Uncaught e, s3)
                       | (None, s3, summary) \<Rightarrow>
                           (case write_text (joinpath (Path (cli_outdir a)) ''INDEX.md'')
                                   (index_text summary) s3 of
                              (Some e, s4) \<Rightarrow> (Uncaught e, s4)
                            | (None, s4) \<Rightarrow>
                                (Exit 0,
                                 s4\<lparr>out := out s4 @
                                   [saved_msg (Path (cli_outdir a))]\<rparr>))))))"

subsection \<open>Sample environments and inputs\<close>

definition fresh :: state where
  "fresh = \<lparr>nodes = Map.empty, out = [], err = [], log = []\<rparr>"

definition env_found :: env where
  "env_found =
     \<lparr>spawn = (\<lambda>argv.
        if argv = [''vol.py'', ''-h''] then Completed 1 ''usage''
        else if take 2 argv = [''vol.py'', ''-f''] then
          (if argv = [''vol.py'', ''-f'', ''mem.raw'', ''windows.pslist'']
           then Completed 0 ''PID''
           else Completed 1 ''unsupported'')
        else SpawnError FileNotFoundError),
      strftime = ''20240102-030405''\<rparr>"

definition env_absent :: env where
  "env_absent =
     \<lparr>spawn = (\<lambda>argv.
        if argv = [''volatility3'', ''-h''] then Completed 2 ''bad option''
        else SpawnError FileNotFoundError),
      strftime = ''20240102-030405''\<rparr>"

definition env_denied :: env where
  "env_denied =
     \<lparr>spawn = (\<lambda>argv.
        if argv = [''vol'', ''-h''] then SpawnError PermissionError
        else if argv = [''vol.py'', ''-h''] then Completed 0 ''usage''
        else SpawnError FileNotFoundError),
      strftime = ''20240102-030405''\<rparr>"

definition cli_two :: cli where
  "cli_two = \<lparr>cli_file = ''mem.raw'', cli_outdir = ''cases/C1'',
               cli_plugins = Some [''windows.pslist'', ''linux.bash'']\<rparr>"


definition stale :: state where
  "stale = \<lparr>nodes = [''pslist.txt'' \<mapsto> File ''old text''], out = [], err = [], log = []\<rparr>"


definition cli_default :: cli where
  "cli_default = \<lparr>cli_file = ''mem.raw'', cli_outdir = ''cases/CASE001'', cli_plugins = None\<rparr>"

definition env_default :: env where
  "env_default =
     \<lparr>spawn = (\<lambda>argv.
        if argv = [''vol'', ''-h''] then Completed 0 ''usage''
        else if take 3 argv = [''vol'', ''-f'', ''mem.raw''] then Completed 0 ''rows''
        else SpawnError FileNotFoundError),
      strftime = ''20240102-030405''\<rparr>"


subsection \<open>Notions of the statements and proofs\<close>

text \<open>A candidate the locator passes over, and one it accepts.\<close>

definition skipped :: "env \<Rightarrow> string \<Rightarrow> bool" where
  "skipped en c =
     (case spawn en [c, ''-h''] of
        Completed rc output \<Rightarrow> rc \<noteq> 0 \<and> rc \<noteq> 1
      | SpawnError e \<Rightarrow> e = FileNotFoundError)"


text \<open>The length of the text of a path with components.\<close>

definition plen :: "path \<Rightarrow> nat" where
  "plen p = length (anchor p) + length (join ''/'' (parts p))"

text \<open>The second state is the first with the directories \<open>ks\<close> made, in this order.\<close>

definition made :: "state \<Rightarrow> state \<Rightarrow> string list \<Rightarrow> bool" where
  "made s s' ks =
     (out s' = out s \<and> err s' = err s \<and> log s' = log s @ map MkDir ks \<and>
      (\<forall>k. nodes s' k = (if k \<in> set ks then Some Dir else nodes s k)))"

text \<open>No file stands where the path or one of its ancestors is to be a directory.\<close>

fun is_file :: "node option \<Rightarrow> bool" where
  "is_file (Some (File c)) = True"
| "is_file n = False"

definition chain_clear :: "state \<Rightarrow> path \<Rightarrow> bool" where
  "chain_clear s p =
     list_all (\<lambda>n. \<not> is_file (nodes s (str_path (p\<lparr>parts := take n (parts p)\<rparr>))))
       [0..<Suc (length (parts p))]"

text \<open>The text of the path of a plugin's output file, and what running the plugin logs.\<close>

definition target_key :: "path \<Rightarrow> string \<Rightarrow> string" where
  "target_key outdir plg = str_path (target_of outdir plg)"

definition plugin_events :: "string \<Rightarrow> string \<Rightarrow> path \<Rightarrow> string \<Rightarrow> event list" where
  "plugin_events vol img outdir plg =
     [OpenW (target_key outdir plg),
      ChildWrite (plugin_args vol img plg None) (target_key outdir plg)]"

text \<open>What the plugin process wrote, and the file system after the plugins of a list.\<close>

definition child_output :: "env \<Rightarrow> string list \<Rightarrow> string" where
  "child_output en argv = (case spawn en argv of Completed rc outp \<Rightarrow> outp | SpawnError e \<Rightarrow> [])"

definition captured ::
  "env \<Rightarrow> string \<Rightarrow> string \<Rightarrow> path \<Rightarrow> string list \<Rightarrow> (string \<rightharpoonup> node) \<Rightarrow> (string \<rightharpoonup> node)" where
  "captured en vol img outdir ps m =
     fold (\<lambda>plg m. m(target_key outdir plg \<mapsto>
             File (child_output en (plugin_args vol img plg None)))) ps m"

text \<open>The plugin process starts and ends, with any return code.\<close>

definition completes :: "env \<Rightarrow> string \<Rightarrow> string \<Rightarrow> string \<Rightarrow> bool" where
  "completes en vol img plg =
     (case spawn en (plugin_args vol img plg None) of
        Completed rc outp \<Rightarrow> True | SpawnError e \<Rightarrow> False)"

text \<open>The text of the path of the index document.\<close>

definition index_key :: "path \<Rightarrow> string" where
  "index_key outdir = str_path (joinpath outdir ''INDEX.md'')"

text \<open>The events that open a plugin output file.\<close>

fun is_open :: "event \<Rightarrow> bool" where
  "is_open (OpenW k) = True"
| "is_open e = False"

text \<open>Nothing in the file system is in the way of the case directory, the plugin files and the index.\<close>

definition clear_for :: "state \<Rightarrow> path \<Rightarrow> string list \<Rightarrow> bool" where
  "clear_for s outdir ps =
     (chain_clear s outdir \<and>
      \<not> is_file (nodes s (str_path (joinpath outdir ''raw''))) \<and>
      list_all (\<lambda>p. nodes s (target_key outdir p) \<noteq> Some Dir) ps \<and>
      nodes s (index_key outdir) \<noteq> Some Dir)"

text \<open>The argument lists of the child processes of a log, in order.\<close>

fun spawned :: "event list \<Rightarrow> string list list" where
  "spawned [] = []"
| "spawned (ChildWrite argv k # es) = argv # spawned es"
| "spawned (e # es) = spawned es"


declare mkdir_parents.simps [simp del]

section \<open>The tool locator\<close>

lemma find_vol_from_skipped:
  "list_all (skipped en) pre \<Longrightarrow> find_vol_from en (pre @ cs) = find_vol_from en cs"
  by (induction pre) (auto simp: skipped_def split: spawn_result.splits)





lemma find_vol_Inl_main:
  "find_vol en = Inl e \<Longrightarrow> main en a s = (Uncaught e, s)"
  by (simp add: main_def)








text \<open>
  Claim C9. A probe that raises \<^verbatim>\<open>FileNotFoundError\<close> makes the locator go on
  to the next candidate; a probe that raises any other exception ends the locator with
  that exception, and when this happens at a candidate reached by the locator the
  program ends with the exception uncaught and the state untouched: nothing is written
  to the error stream and the exit status is not the one of the not-found path.
\<close>

theorem find_vol_other_error_propagates:
  "(spawn en [c, ''-h''] = SpawnError FileNotFoundError \<longrightarrow>
      find_vol_from en (c # cs) = find_vol_from en cs) \<and>
   (spawn en [c, ''-h''] = SpawnError e \<and> e \<noteq> FileNotFoundError \<longrightarrow>
      find_vol_from en (c # cs) = Inl e) \<and>
   (CANDIDATE_CMDS = pre @ c # post \<and> list_all (skipped en) pre \<and>
    spawn en [c, ''-h''] = SpawnError e \<and> e \<noteq> FileNotFoundError \<longrightarrow>
      find_vol en = Inl e \<and> main en a s = (Uncaught e, s))"
proof -
  have "find_vol en = Inl e \<and> main en a s = (Uncaught e, s)"
    if h: "CANDIDATE_CMDS = pre @ c # post" "list_all (skipped en) pre"
          "spawn en [c, ''-h''] = SpawnError e" "e \<noteq> FileNotFoundError"
  proof -
    have "find_vol en = find_vol_from en (c # post)"
      unfolding find_vol_def h(1) using h(2) by (rule find_vol_from_skipped)
    with h(3,4) have "find_vol en = Inl e" by simp
    then show ?thesis by (simp add: find_vol_Inl_main)
  qed
  then show ?thesis by auto
qed

text \<open>
  The theorem at an environment where probing \<open>vol\<close> raises a permission error,
  and at one where \<open>vol\<close> is missing.
\<close>

theorem find_vol_other_error_propagates_witness:
  "CANDIDATE_CMDS = [] @ ''vol'' # [''vol.py'', ''volatility3''] \<and>
   spawn env_denied [''vol'', ''-h''] = SpawnError PermissionError \<and>
   find_vol env_denied = Inl PermissionError \<and>
   main env_denied cli_two fresh = (Uncaught PermissionError, fresh) \<and>
   spawn env_absent [''vol'', ''-h''] = SpawnError FileNotFoundError \<and>
   find_vol_from env_absent [''vol'', ''vol.py''] = find_vol_from env_absent [''vol.py'']"
proof -
  have a: "CANDIDATE_CMDS = [] @ ''vol'' # [''vol.py'', ''volatility3'']"
    by (simp add: CANDIDATE_CMDS_def)
  have b: "spawn env_denied [''vol'', ''-h''] = SpawnError PermissionError"
    by (simp add: env_denied_def)
  have c: "spawn env_absent [''vol'', ''-h''] = SpawnError FileNotFoundError"
    by (simp add: env_absent_def)
  have d: "list_all (skipped env_denied) []" by simp
  have e: "PermissionError \<noteq> FileNotFoundError" by simp
  from find_vol_other_error_propagates
         [of env_denied "''vol''" "[''vol.py'', ''volatility3'']" PermissionError "[]"
             "[''vol.py'', ''volatility3'']" cli_two fresh] a b d e
  have "find_vol env_denied = Inl PermissionError \<and>
        main env_denied cli_two fresh = (Uncaught PermissionError, fresh)"
    by blast
  moreover from find_vol_other_error_propagates
         [of env_absent "''vol''" "[''vol.py'']" PermissionError "[]" "[]" cli_two fresh] c
  have "find_vol_from env_absent [''vol'', ''vol.py''] = find_vol_from env_absent [''vol.py'']"
    by blast
  ultimately show ?thesis using a b c by blast
qed

section \<open>Paths and file names\<close>

lemma split_on_ne [simp]: "split_on c s \<noteq> []"
  by (induction s) (auto split: list.splits)

lemma split_on_no_sep: "c \<notin> set s \<Longrightarrow> split_on c s = [s]"
  by (induction s) auto

lemma root_of_Nil_iff: "root_of s = [] \<longleftrightarrow> take 1 s \<noteq> ''/''"
  by (simp add: root_of_def)

lemma root_of_no_slash: "CHR ''/'' \<notin> set s \<Longrightarrow> root_of s = []"
  by (cases s) (auto simp: root_of_def)

lemma parts_Path_single:
  "CHR ''/'' \<notin> set x \<Longrightarrow> x \<noteq> [] \<Longrightarrow> x \<noteq> ''.'' \<Longrightarrow> parts (Path x) = [x]"
  by (simp add: Path_def split_on_no_sep)

lemma joinpath_single:
  "CHR ''/'' \<notin> set x \<Longrightarrow> x \<noteq> [] \<Longrightarrow> x \<noteq> ''.'' \<Longrightarrow>
   joinpath p x = \<lparr>anchor = anchor p, parts = parts p @ [x]\<rparr>"
  by (simp add: joinpath_def root_of_no_slash parts_Path_single)

lemma joinpath_raw:
  "joinpath p ''raw'' = \<lparr>anchor = anchor p, parts = parts p @ [''raw'']\<rparr>"
  by (rule joinpath_single) simp_all

lemma joinpath_index:
  "joinpath p ''INDEX.md'' = \<lparr>anchor = anchor p, parts = parts p @ [''INDEX.md'']\<rparr>"
  by (rule joinpath_single) simp_all

lemma safe_name_no_dot: "CHR ''.'' \<notin> set (safe_name plg)"
  by (auto simp: safe_name_def replace_char_def)

lemma safe_name_slash: "CHR ''/'' \<in> set (safe_name plg) \<longleftrightarrow> CHR ''/'' \<in> set plg"
  by (auto simp: safe_name_def replace_char_def)

lemma target_of_plain:
  assumes "CHR ''/'' \<notin> set plg"
  shows "target_of outdir plg =
           \<lparr>anchor = anchor outdir, parts = parts outdir @ [''raw'', safe_name plg @ ''.txt'']\<rparr>"
proof -
  have "CHR ''/'' \<notin> set (safe_name plg @ ''.txt'')"
    using assms by (simp add: safe_name_slash)
  moreover have "safe_name plg @ ''.txt'' \<noteq> []" by simp
  moreover have "safe_name plg @ ''.txt'' \<noteq> ''.''"
  proof
    assume "safe_name plg @ ''.txt'' = ''.''"
    then have "length (safe_name plg @ ''.txt'') = length ''.''" by simp
    then show False by simp
  qed
  ultimately show ?thesis
    unfolding target_of_def by (simp add: joinpath_single)
qed

text \<open>
  Claim C5, as amended. The name under which a plugin's output is filed is the plugin name
  with every dot replaced by an underscore and every other character kept: no dot is left,
  and a slash is in the result exactly when it is in the plugin name. So the file is the
  single component \<open>name.txt\<close> under the \<open>raw\<close> directory when the
  plugin name has no slash.
\<close>

theorem safe_name_replaces_dots_only:
  "safe_name plg = map (\<lambda>c. if c = CHR ''.'' then CHR ''_'' else c) plg \<and>
   CHR ''.'' \<notin> set (safe_name plg) \<and>
   (CHR ''/'' \<in> set (safe_name plg) \<longleftrightarrow> CHR ''/'' \<in> set plg) \<and>
   (CHR ''/'' \<notin> set plg \<longrightarrow>
      target_of outdir plg =
        \<lparr>anchor = anchor outdir,
         parts = parts outdir @ [''raw'', safe_name plg @ ''.txt'']\<rparr>)"
  using safe_name_no_dot [of plg] safe_name_slash [of plg] target_of_plain [of plg outdir]
  by (simp add: safe_name_def replace_char_def)

text \<open>
  The theorem at \<open>windows.pslist\<close> in the case directory \<open>cases/C1\<close>.
\<close>

theorem safe_name_replaces_dots_only_witness:
  "CHR ''/'' \<notin> set ''windows.pslist'' \<and>
   safe_name ''windows.pslist'' = ''windows_pslist'' \<and>
   str_path (target_of (Path ''cases/C1'') ''windows.pslist'') =
     ''cases/C1/raw/windows_pslist.txt''"
proof -
  have a: "CHR ''/'' \<notin> set ''windows.pslist''" by simp
  have b: "safe_name ''windows.pslist'' = ''windows_pslist''"
    using safe_name_replaces_dots_only [of "''windows.pslist''" "Path ''cases/C1''"] by simp
  have "target_of (Path ''cases/C1'') ''windows.pslist'' =
          \<lparr>anchor = anchor (Path ''cases/C1''),
           parts = parts (Path ''cases/C1'') @ [''raw'', safe_name ''windows.pslist'' @ ''.txt'']\<rparr>"
    using safe_name_replaces_dots_only [of "''windows.pslist''" "Path ''cases/C1''"] a by blast
  then have "str_path (target_of (Path ''cases/C1'') ''windows.pslist'') =
     ''cases/C1/raw/windows_pslist.txt''"
    by (simp add: b str_path_def Path_def root_of_def)
  with a b show ?thesis by simp
qed

text \<open>
  Claim C5 as stated fails: a slash and a space, both separators that are not
  alphanumeric, are not replaced, and a plugin name that starts with a slash gives a file
  outside the case directory.
\<close>

theorem safe_name_keeps_slash_counterexample:
  "safe_name ''a/b c'' = ''a/b c'' \<and>
   str_path (target_of (Path ''cases/C1'') ''/tmp/x.y'') = ''/tmp/x_y.txt''"
  by (simp add: safe_name_def replace_char_def target_of_def joinpath_def root_of_def
      Path_def str_path_def)

section \<open>Running one plugin\<close>

lemma plugin_args_eq:
  "plugin_args volcmd img plugin kargs =
     [volcmd, ''-f'', img, plugin] @ (case kargs of None \<Rightarrow> [] | Some ks \<Rightarrow> ks)"
  by (simp add: plugin_args_def split: option.splits)

lemma open_w_ok:
  "fst (open_w p s) = None \<Longrightarrow>
   open_w p s = (None, s\<lparr>nodes := (nodes s)(str_path p \<mapsto> File []),
                           log := log s @ [OpenW (str_path p)]\<rparr>)"
  by (auto simp: open_w_def split: if_splits option.splits node.splits)

lemma open_w_fail: "open_w p s = (Some e, s') \<Longrightarrow> s' = s"
  by (auto simp: open_w_def split: if_splits option.splits node.splits)

lemma run_plugin_ok:
  assumes "fst (open_w outpath s) = None"
      and "spawn en (plugin_args volcmd img plugin kargs) = Completed rc output"
  shows "run_plugin en volcmd img plugin outpath kargs s =
           (None, s\<lparr>nodes := (nodes s)(str_path outpath \<mapsto> File output),
                     log := log s @ [OpenW (str_path outpath),
                        ChildWrite (plugin_args volcmd img plugin kargs) (str_path outpath)]\<rparr>)"
  using open_w_ok [OF assms(1)] assms(2)
  by (simp add: run_plugin_def child_write_def)

lemma run_plugin_None:
  assumes "fst (run_plugin en volcmd img plugin outpath kargs s) = None"
  shows "fst (open_w outpath s) = None \<and>
         (\<exists>rc output. spawn en (plugin_args volcmd img plugin kargs) = Completed rc output)"
  using assms
  by (auto simp: run_plugin_def split: prod.splits option.splits spawn_result.splits)

text \<open>
  Claim C6. The argument list of the child is the command, \<open>-f\<close>, the image path,
  the plugin name, then the extra arguments when there are any. When the output file can be
  opened and the process completes, with whatever return code, \<open>run_plugin\<close>
  returns with the file holding exactly what the process wrote to standard output and
  standard error (what the file held before is gone), after one open for writing and one
  run of the child on that file; and \<open>run_plugin\<close> returns normally only in
  this case. The model gives a child process as its completed result, so the next step
  always comes after the child has ended.
\<close>

theorem run_plugin_captures_output:
  "plugin_args volcmd img plugin kargs =
     [volcmd, ''-f'', img, plugin] @ (case kargs of None \<Rightarrow> [] | Some ks \<Rightarrow> ks) \<and>
   (fst (open_w outpath s) = None \<and>
    spawn en (plugin_args volcmd img plugin kargs) = Completed rc output \<longrightarrow>
      run_plugin en volcmd img plugin outpath kargs s =
        (None, s\<lparr>nodes := (nodes s)(str_path outpath \<mapsto> File output),
                  log := log s @ [OpenW (str_path outpath),
                     ChildWrite (plugin_args volcmd img plugin kargs) (str_path outpath)]\<rparr>)) \<and>
   (fst (run_plugin en volcmd img plugin outpath kargs s) = None \<longrightarrow>
      fst (open_w outpath s) = None \<and>
      (\<exists>rc output. spawn en (plugin_args volcmd img plugin kargs) = Completed rc output))"
  using plugin_args_eq [of volcmd img plugin kargs]
        run_plugin_ok [of outpath s en volcmd img plugin kargs rc "output"]
        run_plugin_None [of en volcmd img plugin outpath kargs s]
  by blast

text \<open>
  The theorem on a file that already holds text: the old text is replaced by the output.
\<close>

theorem run_plugin_captures_output_witness:
  "fst (open_w (Path ''pslist.txt'') stale) = None \<and>
   spawn env_found [''vol.py'', ''-f'', ''mem.raw'', ''windows.pslist''] = Completed 0 ''PID'' \<and>
   run_plugin env_found ''vol.py'' ''mem.raw'' ''windows.pslist'' (Path ''pslist.txt'') None stale =
     (None, \<lparr>nodes = [''pslist.txt'' \<mapsto> File ''PID''], out = [], err = [],
             log = [OpenW ''pslist.txt'',
                    ChildWrite [''vol.py'', ''-f'', ''mem.raw'', ''windows.pslist'']
                      ''pslist.txt'']\<rparr>)"
proof -
  have p: "Path ''pslist.txt'' = \<lparr>anchor = [], parts = [''pslist.txt'']\<rparr>"
    by (simp add: Path_def root_of_def)
  have a: "fst (open_w (Path ''pslist.txt'') stale) = None"
    by (simp add: p open_w_def is_dir_def parent_def str_path_def stale_def)
  have b: "plugin_args ''vol.py'' ''mem.raw'' ''windows.pslist'' None =
             [''vol.py'', ''-f'', ''mem.raw'', ''windows.pslist'']"
    by (simp add: plugin_args_def)
  have c: "spawn env_found (plugin_args ''vol.py'' ''mem.raw'' ''windows.pslist'' None) =
             Completed 0 ''PID''"
    by (simp add: b env_found_def)
  have k: "str_path (Path ''pslist.txt'') = ''pslist.txt''"
    by (simp add: p str_path_def)
  from run_plugin_captures_output
         [of "''vol.py''" "''mem.raw''" "''windows.pslist''" None "Path ''pslist.txt''" stale
             env_found 0 "''PID''"] a c
  have "run_plugin env_found ''vol.py'' ''mem.raw'' ''windows.pslist'' (Path ''pslist.txt'') None stale =
        (None, stale\<lparr>nodes := (nodes stale)(str_path (Path ''pslist.txt'') \<mapsto> File ''PID''),
                  log := log stale @ [OpenW (str_path (Path ''pslist.txt'')),
                     ChildWrite (plugin_args ''vol.py'' ''mem.raw'' ''windows.pslist'' None)
                       (str_path (Path ''pslist.txt''))]\<rparr>)"
    by blast
  then have "run_plugin env_found ''vol.py'' ''mem.raw'' ''windows.pslist'' (Path ''pslist.txt'') None stale =
     (None, \<lparr>nodes = [''pslist.txt'' \<mapsto> File ''PID''], out = [], err = [],
             log = [OpenW ''pslist.txt'',
                    ChildWrite [''vol.py'', ''-f'', ''mem.raw'', ''windows.pslist'']
                      ''pslist.txt'']\<rparr>)"
    by (simp add: k b stale_def)
  with a c b show ?thesis by simp
qed

section \<open>Making directories\<close>

lemma is_file_iff: "is_file n \<longleftrightarrow> (\<exists>c. n = Some (File c))"
  by (cases n rule: is_file.cases) auto

lemma chain_clear_iff:
  "chain_clear s p \<longleftrightarrow>
     (\<forall>n \<le> length (parts p). \<forall>c.
        nodes s (str_path (p\<lparr>parts := take n (parts p)\<rparr>)) \<noteq> Some (File c))"
  by (auto simp: chain_clear_def list_all_iff is_file_iff less_Suc_eq_le)

lemma clear_for_iff:
  "clear_for s outdir ps \<longleftrightarrow>
     (chain_clear s outdir \<and>
      (\<forall>c. nodes s (str_path (joinpath outdir ''raw'')) \<noteq> Some (File c)) \<and>
      (\<forall>p\<in>set ps. nodes s (target_key outdir p) \<noteq> Some Dir) \<and>
      nodes s (index_key outdir) \<noteq> Some Dir)"
  by (auto simp: clear_for_def list_all_iff is_file_iff)

lemma join_snoc:
  "join sep (xs @ [x]) = (if xs = [] then x else join sep xs @ sep @ x)"
  by (induction sep xs rule: join.induct) auto

lemma length_join_butlast: "length (join sep (butlast xs)) \<le> length (join sep xs)"
  by (cases xs rule: rev_cases) (auto simp: join_snoc)

lemma plen_parent: "plen (parent p) \<le> plen p"
  by (simp add: plen_def parent_def length_join_butlast)

lemma length_str_path: "parts p \<noteq> [] \<Longrightarrow> length (str_path p) = plen p"
  by (simp add: str_path_def plen_def)

lemma made_refl: "made s s []"
  by (simp add: made_def)

lemma made_trans: "made s s1 ks1 \<Longrightarrow> made s1 s2 ks2 \<Longrightarrow> made s s2 (ks1 @ ks2)"
  by (auto simp: made_def)

lemma made_keeps_file: "made s s' ks \<Longrightarrow> nodes s' k = Some (File c) \<Longrightarrow> nodes s k = Some (File c)"
  by (auto simp: made_def split: if_splits)

lemma made_not_file:
  "made s s' ks \<Longrightarrow> nodes s k \<noteq> Some (File c) \<Longrightarrow> nodes s' k \<noteq> Some (File c)"
  by (auto simp: made_def split: if_splits)

lemma made_is_dir: "made s s' ks \<Longrightarrow> is_dir s p \<Longrightarrow> is_dir s' p"
  by (auto simp: made_def is_dir_def)

lemma os_mkdir_cases:
  assumes "os_mkdir p s = (r, s')"
  shows "(r = None \<and> parts p \<noteq> [] \<and> is_dir s (parent p) \<and> nodes s (str_path p) = None \<and>
          s' = s\<lparr>nodes := (nodes s)(str_path p \<mapsto> Dir), log := log s @ [MkDir (str_path p)]\<rparr>) \<or>
         (r \<noteq> None \<and> s' = s)"
  using assms by (auto simp: os_mkdir_def split: if_splits option.splits)

lemma os_mkdir_made:
  assumes "os_mkdir p s = (r, s')"
  shows "\<exists>ks. made s s' ks \<and> (\<forall>k\<in>set ks. length k \<le> plen p) \<and> (r = None \<longrightarrow> is_dir s' p)"
proof -
  from os_mkdir_cases [OF assms] show ?thesis
  proof
    assume h: "r = None \<and> parts p \<noteq> [] \<and> is_dir s (parent p) \<and> nodes s (str_path p) = None \<and>
          s' = s\<lparr>nodes := (nodes s)(str_path p \<mapsto> Dir), log := log s @ [MkDir (str_path p)]\<rparr>"
    then have "made s s' [str_path p]" by (auto simp: made_def)
    moreover have "\<forall>k\<in>set [str_path p]. length k \<le> plen p"
      using h by (simp add: length_str_path)
    moreover have "is_dir s' p" using h by (simp add: is_dir_def)
    ultimately show ?thesis by blast
  next
    assume "r \<noteq> None \<and> s' = s"
    then show ?thesis using made_refl [of s] by auto
  qed
qed

lemma mkdir_single_made:
  assumes "mkdir_single ex p s = (r, s')"
  shows "\<exists>ks. made s s' ks \<and> (\<forall>k\<in>set ks. length k \<le> plen p) \<and> (r = None \<longrightarrow> is_dir s' p)"
proof -
  obtain r0 s0 where o: "os_mkdir p s = (r0, s0)" by (cases "os_mkdir p s")
  from os_mkdir_made [OF o] obtain ks where
    ks: "made s s0 ks" "\<forall>k\<in>set ks. length k \<le> plen p" "r0 = None \<longrightarrow> is_dir s0 p"
    by blast
  from assms o have "s' = s0 \<and> (r = None \<longrightarrow> is_dir s0 p)"
    using ks(3) by (auto simp: mkdir_single_def split: option.splits if_splits)
  with ks show ?thesis by blast
qed

lemma mkdir_parents_made:
  "mkdir_parents ex p s = (r, s') \<Longrightarrow>
   \<exists>ks. made s s' ks \<and> (\<forall>k\<in>set ks. length k \<le> plen p) \<and> (r = None \<longrightarrow> is_dir s' p)"
proof (induction ex p s arbitrary: r s' rule: mkdir_parents.induct)
  case (1 ex p s)
  obtain r0 s0 where o: "os_mkdir p s = (r0, s0)" by (cases "os_mkdir p s")
  from os_mkdir_made [OF o] obtain ks0 where
    ks0: "made s s0 ks0" "\<forall>k\<in>set ks0. length k \<le> plen p" "r0 = None \<longrightarrow> is_dir s0 p"
    by blast
  show ?case
  proof (cases "r0 = Some FileNotFoundError \<and> parts p \<noteq> []")
    case False
    with "1.prems" o have "s' = s0 \<and> (r = None \<longrightarrow> is_dir s0 p)"
      using ks0(3) by (auto simp: mkdir_parents.simps [of ex p s] split: option.splits if_splits)
    with ks0 show ?thesis by blast
  next
    case True
    obtain r1 s1 where m: "mkdir_parents True (parent p) s0 = (r1, s1)"
      by (cases "mkdir_parents True (parent p) s0")
    from True o have o': "os_mkdir p s = (Some FileNotFoundError, s0)" by simp
    from True have ne: "parts p \<noteq> []" by simp
    from "1.IH" [OF o' [symmetric] refl refl ne m] obtain ks1 where
      ks1: "made s0 s1 ks1" "\<forall>k\<in>set ks1. length k \<le> plen (parent p)"
      by blast
    have b1: "\<forall>k\<in>set ks1. length k \<le> plen p"
      using ks1(2) plen_parent [of p] by fastforce
    show ?thesis
    proof (cases r1)
      case (Some e1)
      with "1.prems" o' m True have e: "s' = s1" "r \<noteq> None"
        by (auto simp: mkdir_parents.simps [of ex p s])
      have "made s s' (ks0 @ ks1)"
        unfolding e(1) by (rule made_trans [OF ks0(1) ks1(1)])
      moreover have "\<forall>k\<in>set (ks0 @ ks1). length k \<le> plen p"
        using ks0(2) b1 by auto
      ultimately show ?thesis using e(2) by blast
    next
      case None
      with "1.prems" o' m True have ms: "mkdir_single ex p s1 = (r, s')"
        by (simp add: mkdir_parents.simps [of ex p s])
      from mkdir_single_made [OF ms] obtain ks2 where
        ks2: "made s1 s' ks2" "\<forall>k\<in>set ks2. length k \<le> plen p" "r = None \<longrightarrow> is_dir s' p"
        by blast
      have "made s s' ((ks0 @ ks1) @ ks2)"
        by (rule made_trans [OF made_trans [OF ks0(1) ks1(1)] ks2(1)])
      moreover have "\<forall>k\<in>set ((ks0 @ ks1) @ ks2). length k \<le> plen p"
        using ks0(2) b1 ks2(2) by auto
      ultimately show ?thesis using ks2(3) by blast
    qed
  qed
qed

lemma mkdir_made:
  "mkdir par ex p s = (r, s') \<Longrightarrow>
   \<exists>ks. made s s' ks \<and> (\<forall>k\<in>set ks. length k \<le> plen p) \<and> (r = None \<longrightarrow> is_dir s' p)"
  by (cases par) (auto simp: mkdir_def dest: mkdir_parents_made mkdir_single_made)

lemma mkdir_single_ok:
  assumes "parts p \<noteq> []" "is_dir s (parent p)" "\<forall>c. nodes s (str_path p) \<noteq> Some (File c)"
  shows "fst (mkdir_single True p s) = None"
proof (cases "nodes s (str_path p)")
  case None
  with assms show ?thesis by (simp add: mkdir_single_def os_mkdir_def)
next
  case (Some n)
  with assms(3) have "n = Dir" by (cases n) auto
  with Some assms(1,2) show ?thesis
    by (simp add: mkdir_single_def os_mkdir_def is_dir_def)
qed

lemma chain_clear_parent: "chain_clear s p \<Longrightarrow> chain_clear s (parent p)"
proof -
  assume h: "chain_clear s p"
  have "nodes s (str_path (parent p\<lparr>parts := take n (parts (parent p))\<rparr>)) \<noteq> Some (File c)"
    if "n \<le> length (parts (parent p))" for n c
  proof -
    from that have n: "n \<le> length (parts p) - 1" by (simp add: parent_def)
    then have "take n (butlast (parts p)) = take n (parts p)"
      by (cases "parts p" rule: rev_cases) auto
    then have "parent p\<lparr>parts := take n (parts (parent p))\<rparr> = p\<lparr>parts := take n (parts p)\<rparr>"
      by (simp add: parent_def)
    moreover from n have "n \<le> length (parts p)" by simp
    ultimately show ?thesis using h by (simp add: chain_clear_iff)
  qed
  then show ?thesis by (simp add: chain_clear_iff)
qed

lemma chain_clear_self: "chain_clear s p \<Longrightarrow> nodes s (str_path p) \<noteq> Some (File c)"
proof -
  assume "chain_clear s p"
  then have "nodes s (str_path (p\<lparr>parts := take (length (parts p)) (parts p)\<rparr>)) \<noteq> Some (File c)"
    unfolding chain_clear_iff by blast
  then show ?thesis by simp
qed

lemma mkdir_parents_ok:
  "chain_clear s p \<Longrightarrow> fst (mkdir_parents True p s) = None"
proof (induction "True" p s rule: mkdir_parents.induct)
  case (1 p s)
  note cc = chain_clear_self [OF "1.prems"]
  show ?case
  proof (cases "parts p = []")
    case True
    then show ?thesis
      by (simp add: mkdir_parents.simps [of True p s] os_mkdir_def is_dir_def)
  next
    case ne: False
    show ?thesis
    proof (cases "is_dir s (parent p)")
      case True
      from mkdir_single_ok [OF ne True] cc
      have "fst (mkdir_single True p s) = None" by blast
      then show ?thesis using ne True
        by (auto simp: mkdir_parents.simps [of True p s] mkdir_single_def
            os_mkdir_def split: option.splits if_splits)
    next
      case False
      have "nodes s (str_path (parent p)) \<noteq> Some (File c)" for c
        by (rule chain_clear_self [OF chain_clear_parent [OF "1.prems"]])
      then have pe: "parent_error s p = FileNotFoundError"
        by (auto simp: parent_error_def split: option.splits node.splits)
      with ne False have o: "os_mkdir p s = (Some FileNotFoundError, s)"
        by (simp add: os_mkdir_def)
      have ih: "fst (mkdir_parents True (parent p) s) = None"
        by (rule "1.hyps" [OF o [symmetric] refl refl ne chain_clear_parent [OF "1.prems"]])
      obtain s1 where m: "mkdir_parents True (parent p) s = (None, s1)"
        using ih by (cases "mkdir_parents True (parent p) s") auto
      from mkdir_parents_made [OF m] obtain ks where
        ks: "made s s1 ks" "is_dir s1 (parent p)" by blast
      have "\<forall>c. nodes s1 (str_path p) \<noteq> Some (File c)"
        using made_not_file [OF ks(1)] cc by blast
      from mkdir_single_ok [OF ne ks(2) this] o m ne show ?thesis
        by (simp add: mkdir_parents.simps [of True p s])
    qed
  qed
qed

section \<open>Writing files and the plugin loop\<close>

lemma write_text_cases:
  assumes "write_text p d s = (r, s')"
  shows "(r = None \<and> s' = s\<lparr>nodes := (nodes s)(str_path p \<mapsto> File d),
                              log := log s @ [WriteText (str_path p) d]\<rparr>) \<or>
         (r \<noteq> None \<and> s' = s)"
  using assms by (auto simp: write_text_def split: if_splits option.splits node.splits)

lemma write_text_ok:
  "parts p \<noteq> [] \<Longrightarrow> is_dir s (parent p) \<Longrightarrow> nodes s (str_path p) \<noteq> Some Dir \<Longrightarrow>
   fst (write_text p d s) = None"
  by (auto simp: write_text_def split: option.splits node.splits)

lemma open_w_ok_if:
  "parts p \<noteq> [] \<Longrightarrow> is_dir s (parent p) \<Longrightarrow> nodes s (str_path p) \<noteq> Some Dir \<Longrightarrow>
   fst (open_w p s) = None"
  by (auto simp: open_w_def split: option.splits node.splits)

lemma run_plugin_cases:
  assumes "run_plugin en vol img plg outpath kargs s = (r, s')"
  shows "(r = None \<and>
          s' = s\<lparr>nodes := (nodes s)(str_path outpath \<mapsto>
                     File (child_output en (plugin_args vol img plg kargs))),
                  log := log s @ [OpenW (str_path outpath),
                     ChildWrite (plugin_args vol img plg kargs) (str_path outpath)]\<rparr> \<and>
          (\<exists>rc outp. spawn en (plugin_args vol img plg kargs) = Completed rc outp)) \<or>
         (r \<noteq> None \<and> s' = s) \<or>
         (r \<noteq> None \<and>
          s' = s\<lparr>nodes := (nodes s)(str_path outpath \<mapsto> File []),
                  log := log s @ [OpenW (str_path outpath)]\<rparr>)"
proof (cases "fst (open_w outpath s)")
  case (Some e)
  then obtain s1 where "open_w outpath s = (Some e, s1)" by (cases "open_w outpath s") auto
  with open_w_fail [OF this] assms show ?thesis by (auto simp: run_plugin_def)
next
  case None
  note ow = open_w_ok [OF None]
  show ?thesis
  proof (cases "spawn en (plugin_args vol img plg kargs)")
    case (Completed rc outp)
    from run_plugin_ok [OF None Completed] assms Completed show ?thesis
      by (auto simp: child_output_def)
  next
    case (SpawnError e)
    with ow assms show ?thesis by (auto simp: run_plugin_def)
  qed
qed

lemma plugin_loop_None:
  "plugin_loop en vol img outdir ps s sm = (None, s', sm') \<Longrightarrow>
   sm' = sm @ map (summary_entry outdir) ps \<and>
   (\<forall>p\<in>set ps. completes en vol img p) \<and>
   s' = s\<lparr>nodes := captured en vol img outdir ps (nodes s),
           out := out s @ map (running_msg outdir) ps,
           log := log s @ concat (map (plugin_events vol img outdir) ps)\<rparr>"
proof (induction ps arbitrary: s sm)
  case Nil
  then show ?case by (simp add: captured_def)
next
  case (Cons p ps)
  let ?s0 = "s\<lparr>out := out s @ [running_msg outdir p]\<rparr>"
  obtain r1 s1 where rp: "run_plugin en vol img p (target_of outdir p) None ?s0 = (r1, s1)"
    by (cases "run_plugin en vol img p (target_of outdir p) None ?s0")
  with Cons.prems have r1: "r1 = None"
    by (cases r1) auto
  with rp Cons.prems have
    loop: "plugin_loop en vol img outdir ps s1 (sm @ [summary_entry outdir p]) = (None, s', sm')"
    by simp
  from run_plugin_cases [OF rp] r1 have
    s1: "s1 = ?s0\<lparr>nodes := (nodes ?s0)(target_key outdir p \<mapsto>
                     File (child_output en (plugin_args vol img p None))),
                  log := log ?s0 @ plugin_events vol img outdir p\<rparr>"
    and sp: "\<exists>rc outp. spawn en (plugin_args vol img p None) = Completed rc outp"
    by (auto simp: target_key_def plugin_events_def)
  from sp have c: "completes en vol img p" by (auto simp: completes_def)
  have cap: "captured en vol img outdir (p # ps) (nodes s) =
             captured en vol img outdir ps (nodes s1)"
    by (simp add: captured_def s1)
  from Cons.IH [OF loop] have
    ih: "sm' = (sm @ [summary_entry outdir p]) @ map (summary_entry outdir) ps"
        "\<forall>p\<in>set ps. completes en vol img p"
        "s' = s1\<lparr>nodes := captured en vol img outdir ps (nodes s1),
           out := out s1 @ map (running_msg outdir) ps,
           log := log s1 @ concat (map (plugin_events vol img outdir) ps)\<rparr>"
    by blast+
  have "s' = s\<lparr>nodes := captured en vol img outdir (p # ps) (nodes s),
           out := out s @ map (running_msg outdir) (p # ps),
           log := log s @ concat (map (plugin_events vol img outdir) (p # ps))\<rparr>"
    unfolding cap by (subst ih(3)) (simp add: s1)
  with ih(1,2) c show ?case by simp
qed


section \<open>The index path is apart from every other path\<close>

lemma split_on_append:
  "c \<notin> set y \<Longrightarrow>
   split_on c (x @ y) = butlast (split_on c x) @ [last (split_on c x) @ y]"
proof (induction x)
  case Nil
  then show ?case by (simp add: split_on_no_sep)
next
  case (Cons d x)
  show ?case
  proof (cases "split_on c x")
    case Nil
    then show ?thesis by simp
  next
    case (Cons z zs)
    with Cons.IH [OF Cons.prems] show ?thesis by (cases zs) (auto split: list.splits)
  qed
qed

lemma parts_Path_txt:
  "parts (Path (x @ ''.txt'')) =
     filter (\<lambda>x. x \<noteq> [] \<and> x \<noteq> ''.'') (butlast (split_on CHR ''/'' x)) @
     [last (split_on CHR ''/'' x) @ ''.txt'']"
proof -
  have "CHR ''/'' \<notin> set ''.txt''" by simp
  from split_on_append [OF this, of x] show ?thesis
    by (auto simp: Path_def)
qed

lemma last_str_path:
  assumes "parts p \<noteq> []" "last (parts p) \<noteq> []"
  shows "last (str_path p) = last (last (parts p))"
proof -
  from assms(1) obtain xs x where xs: "parts p = xs @ [x]"
    by (cases "parts p" rule: rev_cases) auto
  with assms(2) have "x \<noteq> []" by simp
  then show ?thesis
    by (simp add: str_path_def xs join_snoc)
qed

lemma target_key_last: "last (target_key outdir plg) = CHR ''t''"
proof -
  let ?seg = "safe_name plg @ ''.txt''"
  obtain ys where ys: "parts (Path ?seg) = ys @ [last (split_on CHR ''/'' (safe_name plg)) @ ''.txt'']"
    using parts_Path_txt [of "safe_name plg"] by blast
  have "\<exists>zs. parts (target_of outdir plg) = zs @ [last (split_on CHR ''/'' (safe_name plg)) @ ''.txt'']"
    by (simp add: target_of_def joinpath_def [of _ ?seg] ys)
  then obtain zs where zs: "parts (target_of outdir plg) =
      zs @ [last (split_on CHR ''/'' (safe_name plg)) @ ''.txt'']"
    by blast
  then have "last (str_path (target_of outdir plg)) =
      last (last (split_on CHR ''/'' (safe_name plg)) @ ''.txt'')"
    using last_str_path [of "target_of outdir plg"] by simp
  then show ?thesis by (simp add: target_key_def)
qed

lemma index_key_last: "last (index_key outdir) = CHR ''d''"
  by (simp add: index_key_def joinpath_index last_str_path)

lemma target_key_neq_index: "target_key outdir plg \<noteq> index_key outdir'"
proof
  assume "target_key outdir plg = index_key outdir'"
  then have "last (target_key outdir plg) = last (index_key outdir')" by simp
  then show False by (simp add: target_key_last index_key_last)
qed

lemma plen_raw: "plen (joinpath outdir ''raw'') =
    plen outdir + (if parts outdir = [] then 3 else 4)"
  by (simp add: joinpath_raw plen_def join_snoc)

lemma length_index_key: "length (index_key outdir) =
    plen outdir + (if parts outdir = [] then 8 else 9)"
  by (simp add: index_key_def joinpath_index length_str_path) (simp add: plen_def join_snoc)

lemma short_neq_index:
  "length k \<le> plen (joinpath outdir ''raw'') \<Longrightarrow> k \<noteq> index_key outdir"
proof
  assume a: "length k \<le> plen (joinpath outdir ''raw'')" and "k = index_key outdir"
  then have "length k = plen outdir + (if parts outdir = [] then 8 else 9)"
    by (simp add: length_index_key)
  with a show False by (simp add: plen_raw split: if_splits)
qed

lemma plen_outdir_le_raw: "plen outdir \<le> plen (joinpath outdir ''raw'')"
  by (simp add: plen_raw)

section \<open>The whole run\<close>


lemma main_found:
  assumes "find_vol en = Inr (Some vol)" "vol \<noteq> []"
  shows "main en a s =
     (case mkdir True True (Path (cli_outdir a)) s of
        (Some e, s1) \<Rightarrow> (Uncaught e, s1)
      | (None, s1) \<Rightarrow>
          (case mkdir False True (joinpath (Path (cli_outdir a)) ''raw'') s1 of
             (Some e, s2) \<Rightarrow> (Uncaught e, s2)
           | (None, s2) \<Rightarrow>
               (case plugin_loop en vol (cli_file a) (Path (cli_outdir a))
                       (args_plugins a) s2
                       (summary_head en (cli_file a) vol (args_plugins a)) of
                  (Some e, s3, summary) \<Rightarrow> (Uncaught e, s3)
                | (None, s3, summary) \<Rightarrow>
                    (case write_text (joinpath (Path (cli_outdir a)) ''INDEX.md'')
                            (index_text summary) s3 of
                       (Some e, s4) \<Rightarrow> (Uncaught e, s4)
                     | (None, s4) \<Rightarrow>
                         (Exit 0, s4\<lparr>out := out s4 @ [saved_msg (Path (cli_outdir a))]\<rparr>)))))"
  unfolding main_def using assms by simp


lemma filter_open_MkDir [simp]: "filter is_open (map MkDir ks) = []"
  by (induction ks) auto

lemma filter_open_plugin_events [simp]:
  "filter is_open (concat (map (plugin_events vol img outdir) ps)) =
     map (\<lambda>plg. OpenW (target_key outdir plg)) ps"
  by (induction ps) (auto simp: plugin_events_def)

lemma captured_Cons:
  "captured en vol img outdir (p # ps) m =
     captured en vol img outdir ps
       (m(target_key outdir p \<mapsto> File (child_output en (plugin_args vol img p None))))"
  by (simp add: captured_def)

lemma captured_keeps_file:
  "m k = Some (File c) \<Longrightarrow> \<exists>c'. captured en vol img outdir ps m k = Some (File c')"
proof (induction ps arbitrary: m c)
  case Nil
  then show ?case by (simp add: captured_def)
next
  case (Cons p ps)
  have "\<exists>c'. (m(target_key outdir p \<mapsto> File (child_output en (plugin_args vol img p None)))) k
          = Some (File c')"
    using Cons.prems by simp
  then obtain c' where
    "(m(target_key outdir p \<mapsto> File (child_output en (plugin_args vol img p None)))) k
          = Some (File c')" by blast
  from Cons.IH [where m = "m(target_key outdir p \<mapsto>
      File (child_output en (plugin_args vol img p None)))" and c = c', OF this]
  show ?case by (simp only: captured_Cons)
qed

lemma captured_file:
  "p \<in> set ps \<Longrightarrow> \<exists>c. captured en vol img outdir ps m (target_key outdir p) = Some (File c)"
proof (induction ps arbitrary: m)
  case Nil
  then show ?case by simp
next
  case (Cons q ps)
  show ?case
  proof (cases "p = q")
    case True
    have "(m(target_key outdir q \<mapsto> File (child_output en (plugin_args vol img q None))))
            (target_key outdir p) = Some (File (child_output en (plugin_args vol img q None)))"
      using True by simp
    from captured_keeps_file [where m = "m(target_key outdir q \<mapsto>
        File (child_output en (plugin_args vol img q None)))" and k = "target_key outdir p", OF this]
    show ?thesis by (simp only: captured_Cons)
  next
    case False
    with Cons.prems have "p \<in> set ps" by simp
    from Cons.IH [OF this] show ?thesis by (simp only: captured_Cons)
  qed
qed

lemma captured_other:
  "k \<notin> target_key outdir ` set ps \<Longrightarrow> captured en vol img outdir ps m k = m k"
  by (induction ps arbitrary: m) (auto simp: captured_Cons, simp add: captured_def)

lemma main_Exit0:
  assumes "fst (main en a s) = Exit 0"
  shows "\<exists>vol ks s2.
     find_vol en = Inr (Some vol) \<and> vol \<noteq> [] \<and> made s s2 ks \<and>
     (\<forall>k\<in>set ks. length k \<le> plen (joinpath (Path (cli_outdir a)) ''raw'')) \<and>
     is_dir s2 (joinpath (Path (cli_outdir a)) ''raw'') \<and>
     s2 = snd (mkdir False True (joinpath (Path (cli_outdir a)) ''raw'')
                 (snd (mkdir True True (Path (cli_outdir a)) s))) \<and>
     (\<forall>p\<in>set (args_plugins a). completes en vol (cli_file a) p) \<and>
     snd (main en a s) =
       s2\<lparr>nodes := (captured en vol (cli_file a) (Path (cli_outdir a)) (args_plugins a) (nodes s2))
                    (index_key (Path (cli_outdir a)) \<mapsto>
                       File (index_text (summary_head en (cli_file a) vol (args_plugins a) @
                               map (summary_entry (Path (cli_outdir a))) (args_plugins a)))),
          out := out s2 @ map (running_msg (Path (cli_outdir a))) (args_plugins a) @
                   [saved_msg (Path (cli_outdir a))],
          log := log s2 @
                 concat (map (plugin_events vol (cli_file a) (Path (cli_outdir a)))
                           (args_plugins a)) @
                 [WriteText (index_key (Path (cli_outdir a)))
                    (index_text (summary_head en (cli_file a) vol (args_plugins a) @
                               map (summary_entry (Path (cli_outdir a))) (args_plugins a)))]\<rparr>"
proof -
  let ?outdir = "Path (cli_outdir a)"
  let ?raw = "joinpath ?outdir ''raw''"
  let ?ps = "args_plugins a"
  let ?img = "cli_file a"
  obtain vol where vol: "find_vol en = Inr (Some vol)" "vol \<noteq> []"
    using assms by (auto simp: main_def split: sum.splits option.splits if_splits)
  note mf = main_found [OF vol, of a s]
  let ?head = "summary_head en ?img vol ?ps"
  obtain r1 s1 where m1: "mkdir True True ?outdir s = (r1, s1)"
    by (cases "mkdir True True ?outdir s")
  have r1: "r1 = None" using assms mf m1 by (cases r1) auto
  obtain r2 s2 where m2: "mkdir False True ?raw s1 = (r2, s2)"
    by (cases "mkdir False True ?raw s1")
  have r2: "r2 = None" using assms mf m1 r1 m2 by (cases r2) auto
  obtain r3 s3 sm where l3: "plugin_loop en vol ?img ?outdir ?ps s2 ?head = (r3, s3, sm)"
    by (cases "plugin_loop en vol ?img ?outdir ?ps s2 ?head")
  have r3: "r3 = None" using assms mf m1 r1 m2 r2 l3 by (cases r3) auto
  obtain r4 s4 where w4: "write_text (joinpath ?outdir ''INDEX.md'') (index_text sm) s3 = (r4, s4)"
    by (cases "write_text (joinpath ?outdir ''INDEX.md'') (index_text sm) s3")
  have r4: "r4 = None" using assms mf m1 r1 m2 r2 l3 r3 w4 by (cases r4) auto
  from mkdir_made [OF m1] obtain ks1 where
    ks1: "made s s1 ks1" and b1: "\<forall>k\<in>set ks1. length k \<le> plen ?outdir" by blast
  from mkdir_made [OF m2] r2 obtain ks2 where
    ks2: "made s1 s2 ks2" "is_dir s2 ?raw" and b2: "\<forall>k\<in>set ks2. length k \<le> plen ?raw"
    by blast
  note mk = made_trans [OF ks1 ks2(1)]
  have bound: "\<forall>k\<in>set (ks1 @ ks2). length k \<le> plen ?raw"
    using b1 b2 plen_outdir_le_raw [of ?outdir] by fastforce
  from plugin_loop_None [OF l3 [unfolded r3]] have
    sm: "sm = ?head @ map (summary_entry ?outdir) ?ps"
    and cp: "\<forall>p\<in>set ?ps. completes en vol ?img p"
    and s3: "s3 = s2\<lparr>nodes := captured en vol ?img ?outdir ?ps (nodes s2),
           out := out s2 @ map (running_msg ?outdir) ?ps,
           log := log s2 @ concat (map (plugin_events vol ?img ?outdir) ?ps)\<rparr>"
    by blast+
  from write_text_cases [OF w4] r4 have
    s4: "s4 = s3\<lparr>nodes := (nodes s3)(index_key ?outdir \<mapsto> File (index_text sm)),
                  log := log s3 @ [WriteText (index_key ?outdir) (index_text sm)]\<rparr>"
    by (simp add: index_key_def)
  have "snd (main en a s) = s4\<lparr>out := out s4 @ [saved_msg ?outdir]\<rparr>"
    using mf m1 r1 m2 r2 l3 r3 w4 r4 by simp
  then have "snd (main en a s) =
       s2\<lparr>nodes := (captured en vol ?img ?outdir ?ps (nodes s2))
                    (index_key ?outdir \<mapsto> File (index_text (?head @ map (summary_entry ?outdir) ?ps))),
          out := out s2 @ map (running_msg ?outdir) ?ps @ [saved_msg ?outdir],
          log := log s2 @ concat (map (plugin_events vol ?img ?outdir) ?ps) @
                 [WriteText (index_key ?outdir)
                    (index_text (?head @ map (summary_entry ?outdir) ?ps))]\<rparr>"
    by (simp add: s4 s3 sm)
  moreover have "s2 = snd (mkdir False True ?raw (snd (mkdir True True ?outdir s)))"
    by (simp add: m1 m2)
  ultimately show ?thesis using vol mk ks2(2) cp bound by blast
qed

lemma path_eta: "\<lparr>anchor = anchor p, parts = parts p\<rparr> = (p :: path)"
  by simp

lemma parent_raw: "parent (joinpath outdir ''raw'') = outdir"
  by (simp add: joinpath_raw parent_def)

lemma parent_index: "parent (joinpath outdir ''INDEX.md'') = outdir"
  by (simp add: joinpath_index parent_def)

lemma parent_target:
  "CHR ''/'' \<notin> set plg \<Longrightarrow> parent (target_of outdir plg) = joinpath outdir ''raw''"
  by (simp add: target_of_plain joinpath_raw parent_def butlast_append)

lemma parts_target_ne: "parts (target_of outdir plg) \<noteq> []"
proof -
  let ?seg = "safe_name plg @ ''.txt''"
  have "parts (Path ?seg) \<noteq> []" by (simp add: parts_Path_txt)
  then show ?thesis by (simp add: target_of_def joinpath_def [of _ ?seg])
qed

lemma length_target_key:
  "CHR ''/'' \<notin> set plg \<Longrightarrow>
   length (target_key outdir plg) = plen (joinpath outdir ''raw'') + 5 + length plg"
proof -
  assume a: "CHR ''/'' \<notin> set plg"
  have "length (target_key outdir plg) = plen (target_of outdir plg)"
    unfolding target_key_def by (rule length_str_path [OF parts_target_ne])
  also have "\<dots> = plen (joinpath outdir ''raw'') + 5 + length plg"
    using join_snoc [of "''/''" "parts outdir @ [''raw'']" "safe_name plg @ ''.txt''"]
    by (simp add: target_of_plain [OF a] joinpath_raw plen_def safe_name_def replace_char_def)
  finally show ?thesis .
qed



lemma find_vol_from_mem:
  "find_vol_from en cs = Inr (Some c) \<Longrightarrow> c \<in> set cs"
  by (induction cs) (auto split: spawn_result.splits if_splits)

lemma find_vol_nonempty: "find_vol en = Inr (Some vol) \<Longrightarrow> vol \<noteq> []"
proof -
  assume "find_vol en = Inr (Some vol)"
  then have "vol \<in> set CANDIDATE_CMDS"
    unfolding find_vol_def by (rule find_vol_from_mem)
  then show ?thesis by (auto simp: CANDIDATE_CMDS_def)
qed

lemma plugin_loop_completes:
  assumes "is_dir s (joinpath outdir ''raw'')"
      and "\<forall>p\<in>set ps. CHR ''/'' \<notin> set p \<and> nodes s (target_key outdir p) \<noteq> Some Dir \<and>
             completes en vol img p"
  shows "fst (plugin_loop en vol img outdir ps s sm) = None"
  using assms
proof (induction ps arbitrary: s sm)
  case Nil
  then show ?case by simp
next
  case (Cons p ps)
  let ?raw = "joinpath outdir ''raw''"
  let ?s0 = "s\<lparr>out := out s @ [running_msg outdir p]\<rparr>"
  from Cons.prems(2) have p: "CHR ''/'' \<notin> set p" "nodes s (target_key outdir p) \<noteq> Some Dir"
    "completes en vol img p" by simp_all
  have d0: "is_dir ?s0 (parent (target_of outdir p))"
    using Cons.prems(1) by (simp add: parent_target [OF p(1)] is_dir_def)
  have n0: "nodes ?s0 (str_path (target_of outdir p)) \<noteq> Some Dir"
    using p(2) by (simp add: target_key_def)
  have ow: "fst (open_w (target_of outdir p) ?s0) = None"
    by (rule open_w_ok_if [OF parts_target_ne d0 n0])
  from p(3) obtain rc outp where
    sp: "spawn en (plugin_args vol img p None) = Completed rc outp"
    by (auto simp: completes_def split: spawn_result.splits)
  note rp = run_plugin_ok [OF ow sp]
  let ?s1 = "?s0\<lparr>nodes := (nodes ?s0)(str_path (target_of outdir p) \<mapsto> File outp),
                  log := log ?s0 @ [OpenW (str_path (target_of outdir p)),
                     ChildWrite (plugin_args vol img p None) (str_path (target_of outdir p))]\<rparr>"
  have raw_ne: "str_path ?raw \<noteq> target_key outdir p"
    using Cons.prems(1) p(2) by (auto simp: is_dir_def joinpath_raw)
  have d1: "is_dir ?s1 ?raw"
    using Cons.prems(1) raw_ne by (auto simp: is_dir_def target_key_def)
  have i1: "\<forall>q\<in>set ps. CHR ''/'' \<notin> set q \<and> nodes ?s1 (target_key outdir q) \<noteq> Some Dir \<and>
             completes en vol img q"
    using Cons.prems(2) by (auto simp: target_key_def)
  from Cons.IH [OF d1 i1] rp show ?case by simp
qed

lemma main_completes:
  assumes fv: "find_vol en = Inr (Some vol)"
      and cl: "clear_for s (Path (cli_outdir a)) (args_plugins a)"
      and pl: "\<forall>p\<in>set (args_plugins a). CHR ''/'' \<notin> set p \<and> completes en vol (cli_file a) p"
  shows "fst (main en a s) = Exit 0"
proof -
  let ?outdir = "Path (cli_outdir a)"
  let ?raw = "joinpath ?outdir ''raw''"
  let ?idx = "joinpath ?outdir ''INDEX.md''"
  let ?ps = "args_plugins a"
  let ?img = "cli_file a"
  let ?head = "summary_head en ?img vol ?ps"
  note mf = main_found [OF fv find_vol_nonempty [OF fv], of a s]
  from cl have cc: "chain_clear s ?outdir"
    and rawf: "\<forall>c. nodes s (str_path ?raw) \<noteq> Some (File c)"
    and tg: "\<forall>p\<in>set ?ps. nodes s (target_key ?outdir p) \<noteq> Some Dir"
    and ix: "nodes s (index_key ?outdir) \<noteq> Some Dir"
    by (simp_all add: clear_for_iff)
  have "fst (mkdir True True ?outdir s) = None"
    using mkdir_parents_ok [OF cc] by (simp add: mkdir_def)
  then obtain s1 where m1: "mkdir True True ?outdir s = (None, s1)"
    by (cases "mkdir True True ?outdir s") auto
  from mkdir_made [OF m1] obtain ks1 where
    ks1: "made s s1 ks1" "\<forall>k\<in>set ks1. length k \<le> plen ?outdir" "is_dir s1 ?outdir"
    by blast
  have raw_parts: "parts ?raw \<noteq> []" by (simp add: joinpath_raw)
  have "is_dir s1 (parent ?raw)" using ks1(3) by (simp only: parent_raw)
  moreover have "\<forall>c. nodes s1 (str_path ?raw) \<noteq> Some (File c)"
    using made_not_file [OF ks1(1)] rawf by blast
  ultimately have "fst (mkdir False True ?raw s1) = None"
    using mkdir_single_ok [OF raw_parts] by (simp add: mkdir_def)
  then obtain s2 where m2: "mkdir False True ?raw s1 = (None, s2)"
    by (cases "mkdir False True ?raw s1") auto
  from mkdir_made [OF m2] obtain ks2 where
    ks2: "made s1 s2 ks2" "\<forall>k\<in>set ks2. length k \<le> plen ?raw" "is_dir s2 ?raw"
    by blast
  note mk = made_trans [OF ks1(1) ks2(1)]
  have bound: "\<forall>k\<in>set (ks1 @ ks2). length k \<le> plen ?raw"
    using ks1(2) ks2(2) plen_outdir_le_raw [of ?outdir] by fastforce
  have same: "nodes s2 k = nodes s k" if "plen ?raw < length k" for k
  proof -
    from bound that have "k \<notin> set (ks1 @ ks2)" by fastforce
    with mk show ?thesis by (simp add: made_def)
  qed
  have same_idx: "nodes s2 (index_key ?outdir) = nodes s (index_key ?outdir)"
    using mk bound short_neq_index [of "index_key ?outdir" ?outdir]
    by (auto simp: made_def)
  have inv: "\<forall>p\<in>set ?ps. CHR ''/'' \<notin> set p \<and> nodes s2 (target_key ?outdir p) \<noteq> Some Dir \<and>
             completes en vol ?img p"
  proof
    fix p assume p: "p \<in> set ?ps"
    with pl have sl: "CHR ''/'' \<notin> set p" and cp: "completes en vol ?img p" by simp_all
    have "nodes s2 (target_key ?outdir p) = nodes s (target_key ?outdir p)"
      by (rule same) (simp add: length_target_key [OF sl])
    with tg p sl cp show "CHR ''/'' \<notin> set p \<and> nodes s2 (target_key ?outdir p) \<noteq> Some Dir \<and>
             completes en vol ?img p" by simp
  qed
  have "fst (plugin_loop en vol ?img ?outdir ?ps s2 ?head) = None"
    by (rule plugin_loop_completes [OF ks2(3) inv])
  then obtain s3 sm where l3: "plugin_loop en vol ?img ?outdir ?ps s2 ?head = (None, s3, sm)"
    by (cases "plugin_loop en vol ?img ?outdir ?ps s2 ?head") auto
  from plugin_loop_None [OF l3] have
    n3: "nodes s3 = captured en vol ?img ?outdir ?ps (nodes s2)" by simp
  have notkey: "k \<notin> target_key ?outdir ` set ?ps" if "length k \<le> plen ?raw" for k
  proof
    assume "k \<in> target_key ?outdir ` set ?ps"
    then obtain p where p: "p \<in> set ?ps" "k = target_key ?outdir p" by blast
    with pl have "CHR ''/'' \<notin> set p" by simp
    from length_target_key [OF this, of ?outdir] p(2) that show False by simp
  qed
  have d3: "is_dir s3 (parent ?idx)"
  proof (cases "parts ?outdir = []")
    case True
    then show ?thesis by (simp add: parent_index is_dir_def)
  next
    case False
    have "is_dir s2 ?outdir" by (rule made_is_dir [OF ks2(1) ks1(3)])
    with False have "nodes s2 (str_path ?outdir) = Some Dir" by (simp add: is_dir_def)
    moreover have "length (str_path ?outdir) \<le> plen ?raw"
      using length_str_path [OF False] plen_outdir_le_raw [of ?outdir] by simp
    ultimately have "nodes s3 (str_path ?outdir) = Some Dir"
      using captured_other [OF notkey] n3 by simp
    then show ?thesis by (simp add: parent_index is_dir_def)
  qed
  have "index_key ?outdir \<notin> target_key ?outdir ` set ?ps"
    using target_key_neq_index [of ?outdir _ ?outdir] by (metis imageE)
  then have "nodes s3 (index_key ?outdir) = nodes s (index_key ?outdir)"
    using captured_other n3 same_idx by simp
  with ix have n3i: "nodes s3 (str_path ?idx) \<noteq> Some Dir" by (simp add: index_key_def)
  have "parts ?idx \<noteq> []" by (simp add: joinpath_index)
  from write_text_ok [OF this d3 n3i] have "fst (write_text ?idx (index_text sm) s3) = None" .
  then obtain s4 where w4: "write_text ?idx (index_text sm) s3 = (None, s4)"
    by (cases "write_text ?idx (index_text sm) s3") auto
  show ?thesis using mf m1 m2 l3 w4 by simp
qed

lemma chain_clear_empty: "nodes s = Map.empty \<Longrightarrow> chain_clear s p"
  by (simp add: chain_clear_iff)

lemma clear_for_empty: "nodes s = Map.empty \<Longrightarrow> clear_for s outdir ps"
  by (simp add: clear_for_iff chain_clear_empty)







lemma spawned_append [simp]: "spawned (xs @ ys) = spawned xs @ spawned ys"
  by (induction xs rule: spawned.induct) auto

lemma spawned_MkDir [simp]: "spawned (map MkDir ks) = []"
  by (induction ks) auto

lemma spawned_plugin_events [simp]:
  "spawned (concat (map (plugin_events vol img outdir) ps)) =
     map (\<lambda>p. plugin_args vol img p None) ps"
  by (induction ps) (auto simp: plugin_events_def)















lemma default_outdir:
  "Path (cli_outdir cli_default) = \<lparr>anchor = [], parts = [''cases'', ''CASE001'']\<rparr>"
  by (simp add: cli_default_def Path_def root_of_def)

lemma default_args:
  "args_plugins cli_default = DEFAULT_PLUGINS" "cli_file cli_default = ''mem.raw''"
  by (simp_all add: args_plugins_def cli_default_def)

lemma default_mkdir:
  assumes "nodes s = Map.empty"
  shows "snd (mkdir False True (joinpath (Path (cli_outdir cli_default)) ''raw'')
                 (snd (mkdir True True (Path (cli_outdir cli_default)) s))) =
         s\<lparr>nodes := [''cases'' \<mapsto> Dir, ''cases/CASE001'' \<mapsto> Dir, ''cases/CASE001/raw'' \<mapsto> Dir],
           log := log s @ [MkDir ''cases'', MkDir ''cases/CASE001'', MkDir ''cases/CASE001/raw'']\<rparr>"
proof -
  let ?p0 = "\<lparr>anchor = [], parts = []\<rparr> :: path"
  let ?p1 = "\<lparr>anchor = [], parts = [''cases'']\<rparr>"
  let ?p2 = "\<lparr>anchor = [], parts = [''cases'', ''CASE001'']\<rparr>"
  let ?p3 = "\<lparr>anchor = [], parts = [''cases'', ''CASE001'', ''raw'']\<rparr>"
  let ?s1 = "s\<lparr>nodes := [''cases'' \<mapsto> Dir], log := log s @ [MkDir ''cases'']\<rparr>"
  let ?s2 = "s\<lparr>nodes := [''cases'' \<mapsto> Dir, ''cases/CASE001'' \<mapsto> Dir],
               log := log s @ [MkDir ''cases'', MkDir ''cases/CASE001'']\<rparr>"
  have k: "str_path ?p1 = ''cases''" "str_path ?p2 = ''cases/CASE001''"
    "str_path ?p3 = ''cases/CASE001/raw''"
    by (simp_all add: str_path_def)
  have par: "parent ?p1 = ?p0" "parent ?p2 = ?p1" "parent ?p3 = ?p2"
    by (simp_all add: parent_def)
  have a: "mkdir_parents True ?p1 s = (None, ?s1)"
    using assms
    by (simp add: mkdir_parents.simps [of True ?p1 s] os_mkdir_def par is_dir_def k)
  have b1: "os_mkdir ?p2 s = (Some FileNotFoundError, s)"
    using assms by (simp add: os_mkdir_def par is_dir_def k parent_error_def)
  have b2: "mkdir_single True ?p2 ?s1 = (None, ?s2)"
    using assms by (simp add: mkdir_single_def os_mkdir_def par is_dir_def k)
  have b: "mkdir True True ?p2 s = (None, ?s2)"
    by (simp add: mkdir_def mkdir_parents.simps [of True ?p2 s] b1 par a b2)
  have c: "mkdir False True ?p3 ?s2 =
      (None, s\<lparr>nodes := [''cases'' \<mapsto> Dir, ''cases/CASE001'' \<mapsto> Dir, ''cases/CASE001/raw'' \<mapsto> Dir],
           log := log s @ [MkDir ''cases'', MkDir ''cases/CASE001'', MkDir ''cases/CASE001/raw'']\<rparr>)"
    using assms by (simp add: mkdir_def mkdir_single_def os_mkdir_def par is_dir_def k)
  show ?thesis
    unfolding default_outdir by (simp add: joinpath_raw b c)
qed

lemma default_targets:
  "map (target_key (Path (cli_outdir cli_default))) DEFAULT_PLUGINS =
     [''cases/CASE001/raw/windows_pslist.txt'', ''cases/CASE001/raw/windows_pstree.txt'',
      ''cases/CASE001/raw/windows_netscan.txt'', ''cases/CASE001/raw/windows_dlllist.txt'',
      ''cases/CASE001/raw/windows_cmdline.txt'', ''cases/CASE001/raw/windows_malfind.txt'']"
  unfolding default_outdir DEFAULT_PLUGINS_def
  by (simp add: target_key_def target_of_def safe_name_def replace_char_def joinpath_def
      root_of_def Path_def str_path_def)

lemma default_index: "index_key (Path (cli_outdir cli_default)) = ''cases/CASE001/INDEX.md''"
  unfolding default_outdir by (simp add: index_key_def joinpath_index str_path_def)

lemma summary_entry_key: "summary_entry outdir p = ''- `'' @ target_key outdir p @ ''`''"
  by (simp add: summary_entry_def target_key_def)

lemma default_entries:
  "map (summary_entry (Path (cli_outdir cli_default))) DEFAULT_PLUGINS =
     [''- `cases/CASE001/raw/windows_pslist.txt`'', ''- `cases/CASE001/raw/windows_pstree.txt`'',
      ''- `cases/CASE001/raw/windows_netscan.txt`'', ''- `cases/CASE001/raw/windows_dlllist.txt`'',
      ''- `cases/CASE001/raw/windows_cmdline.txt`'', ''- `cases/CASE001/raw/windows_malfind.txt`'']"
proof -
  have "map (summary_entry (Path (cli_outdir cli_default))) DEFAULT_PLUGINS =
        map (\<lambda>k. ''- `'' @ k @ ''`'') (map (target_key (Path (cli_outdir cli_default))) DEFAULT_PLUGINS)"
    by (simp add: summary_entry_key)
  then show ?thesis unfolding default_targets by simp
qed

lemma default_plugins_line:
  "join '', '' DEFAULT_PLUGINS =
     ''windows.pslist, windows.pstree, windows.netscan, windows.dlllist, windows.cmdline, windows.malfind''"
  by (simp add: DEFAULT_PLUGINS_def)

text \<open>
  Claim C8. With the image \<open>mem.raw\<close>, the output directory
  \<open>cases/CASE001\<close> and no plugin list, from an empty file system, with the tool
  found and every plugin process completing: the run ends with exit status 0, the files
  are exactly the six plugin files under \<open>cases/CASE001/raw\<close> and
  \<open>cases/CASE001/INDEX.md\<close>, the directories are the three of the case, and the
  index lists the six paths in order.
\<close>

theorem default_run_files:
  assumes fv: "find_vol en = Inr (Some vol)"
      and cp: "\<forall>p\<in>set DEFAULT_PLUGINS.
                 \<exists>rc outp. spawn en [vol, ''-f'', ''mem.raw'', p] = Completed rc outp"
      and em: "nodes s = Map.empty"
  shows "fst (main en cli_default s) = Exit 0 \<and>
     {k. \<exists>c. nodes (snd (main en cli_default s)) k = Some (File c)} =
       {''cases/CASE001/raw/windows_pslist.txt'', ''cases/CASE001/raw/windows_pstree.txt'',
        ''cases/CASE001/raw/windows_netscan.txt'', ''cases/CASE001/raw/windows_dlllist.txt'',
        ''cases/CASE001/raw/windows_cmdline.txt'', ''cases/CASE001/raw/windows_malfind.txt'',
        ''cases/CASE001/INDEX.md''} \<and>
     {k. nodes (snd (main en cli_default s)) k = Some Dir} =
       {''cases'', ''cases/CASE001'', ''cases/CASE001/raw''} \<and>
     nodes (snd (main en cli_default s)) ''cases/CASE001/INDEX.md'' =
       Some (File
         (join ''\<newline>''
            [''# Memory Forensics Triage '' @ em_dash @ '' '' @ strftime en,
             ''- Image: `mem.raw`'',
             ''- Volatility: `'' @ vol @ ''`'',
             ''- Plugins: windows.pslist, windows.pstree, windows.netscan, windows.dlllist, windows.cmdline, windows.malfind'',
             [],
             ''## Outputs'',
             ''- `cases/CASE001/raw/windows_pslist.txt`'',
             ''- `cases/CASE001/raw/windows_pstree.txt`'',
             ''- `cases/CASE001/raw/windows_netscan.txt`'',
             ''- `cases/CASE001/raw/windows_dlllist.txt`'',
             ''- `cases/CASE001/raw/windows_cmdline.txt`'',
             ''- `cases/CASE001/raw/windows_malfind.txt`''] @
          ''\<newline>\<newline>'' @ hints @ ''\<newline>''))"
proof -
  let ?outdir = "Path (cli_outdir cli_default)"
  let ?s' = "snd (main en cli_default s)"
  let ?idx = "''cases/CASE001/INDEX.md''"
  let ?keys = "[''cases/CASE001/raw/windows_pslist.txt'', ''cases/CASE001/raw/windows_pstree.txt'',
      ''cases/CASE001/raw/windows_netscan.txt'', ''cases/CASE001/raw/windows_dlllist.txt'',
      ''cases/CASE001/raw/windows_cmdline.txt'', ''cases/CASE001/raw/windows_malfind.txt'']"
  let ?dirs = "[''cases'' \<mapsto> Dir, ''cases/CASE001'' \<mapsto> Dir, ''cases/CASE001/raw'' \<mapsto> Dir]"
  have pa: "plugin_args vol ''mem.raw'' p None = [vol, ''-f'', ''mem.raw'', p]" for p
    by (simp add: plugin_args_def)
  have pl: "\<forall>p\<in>set (args_plugins cli_default). CHR ''/'' \<notin> set p \<and>
              completes en vol (cli_file cli_default) p"
  proof
    fix p assume p: "p \<in> set (args_plugins cli_default)"
    then have "p \<in> set DEFAULT_PLUGINS" by (simp add: default_args)
    with cp have "completes en vol ''mem.raw'' p" by (auto simp: completes_def pa)
    moreover from p have "CHR ''/'' \<notin> set p"
      by (auto simp: default_args DEFAULT_PLUGINS_def)
    ultimately show "CHR ''/'' \<notin> set p \<and> completes en vol (cli_file cli_default) p"
      by (simp add: default_args)
  qed
  have ex: "fst (main en cli_default s) = Exit 0"
    by (rule main_completes [OF fv clear_for_empty [OF em] pl])
  from main_Exit0 [OF ex, unfolded default_args default_index] obtain vol' ks s2 where
    v': "find_vol en = Inr (Some vol')"
    and s2: "s2 = snd (mkdir False True (joinpath ?outdir ''raw'') (snd (mkdir True True ?outdir s)))"
    and s0: "?s' = s2\<lparr>nodes := (captured en vol' ''mem.raw'' ?outdir DEFAULT_PLUGINS (nodes s2))
                    (?idx \<mapsto>
                       File (index_text (summary_head en ''mem.raw'' vol' DEFAULT_PLUGINS @
                               map (summary_entry ?outdir) DEFAULT_PLUGINS))),
          out := out s2 @ map (running_msg ?outdir) DEFAULT_PLUGINS @ [saved_msg ?outdir],
          log := log s2 @ concat (map (plugin_events vol' ''mem.raw'' ?outdir) DEFAULT_PLUGINS) @
                 [WriteText ?idx
                    (index_text (summary_head en ''mem.raw'' vol' DEFAULT_PLUGINS @
                               map (summary_entry ?outdir) DEFAULT_PLUGINS))]\<rparr>"
    by blast
  from v' fv have vv: "vol' = vol" by simp
  note s' = s0 [unfolded vv]
  have n2: "nodes s2 = ?dirs"
    unfolding s2 default_mkdir [OF em] by simp
  have keys: "target_key ?outdir ` set DEFAULT_PLUGINS = set ?keys"
    using default_targets by (metis set_map)
  have at_key: "\<exists>c. nodes ?s' k = Some (File c)" if "k \<in> set ?keys" for k
  proof -
    from that keys obtain p where p: "p \<in> set DEFAULT_PLUGINS" "k = target_key ?outdir p"
      by blast
    from captured_file [OF p(1), of en vol "''mem.raw''" ?outdir "nodes s2"] p(2)
    show ?thesis by (simp add: s')
  qed
  have at_idx: "nodes ?s' ?idx = Some (File (index_text (summary_head en ''mem.raw'' vol DEFAULT_PLUGINS @
                               map (summary_entry ?outdir) DEFAULT_PLUGINS)))"
    by (simp add: s')
  have elsewhere: "nodes ?s' k = ?dirs k" if "k \<notin> set ?keys" "k \<noteq> ?idx" for k
  proof -
    from that(1) keys have "k \<notin> target_key ?outdir ` set DEFAULT_PLUGINS" by simp
    from captured_other [OF this, of en vol "''mem.raw''" "nodes s2"] that(2) n2
    show ?thesis by (simp add: s')
  qed
  have set_keys: "set ?keys \<union> {?idx} =
       {''cases/CASE001/raw/windows_pslist.txt'', ''cases/CASE001/raw/windows_pstree.txt'',
        ''cases/CASE001/raw/windows_netscan.txt'', ''cases/CASE001/raw/windows_dlllist.txt'',
        ''cases/CASE001/raw/windows_cmdline.txt'', ''cases/CASE001/raw/windows_malfind.txt'',
        ?idx}"
    by (simp only: list.set Un_insert_left Un_empty_left)
  have is_file: "\<exists>c. nodes ?s' k = Some (File c)" if "k \<in> set ?keys \<union> {?idx}" for k
  proof (cases "k = ?idx")
    case True
    with at_idx show ?thesis by blast
  next
    case False
    with that have "k \<in> set ?keys" by blast
    then show ?thesis by (rule at_key)
  qed
  have no_file: "\<not> (\<exists>c. nodes ?s' k = Some (File c))" if "k \<notin> set ?keys \<union> {?idx}" for k
  proof -
    from that have "k \<notin> set ?keys" "k \<noteq> ?idx" by blast+
    then have "nodes ?s' k = ?dirs k" by (rule elsewhere)
    then show ?thesis by (simp split: if_splits)
  qed
  have "{k. \<exists>c. nodes ?s' k = Some (File c)} = set ?keys \<union> {?idx}"
    using is_file no_file by blast
  then have files: "{k. \<exists>c. nodes ?s' k = Some (File c)} =
       {''cases/CASE001/raw/windows_pslist.txt'', ''cases/CASE001/raw/windows_pstree.txt'',
        ''cases/CASE001/raw/windows_netscan.txt'', ''cases/CASE001/raw/windows_dlllist.txt'',
        ''cases/CASE001/raw/windows_cmdline.txt'', ''cases/CASE001/raw/windows_malfind.txt'',
        ?idx}"
    by (simp only: set_keys)
  have apart: "k \<notin> {''cases'', ''cases/CASE001'', ''cases/CASE001/raw''}"
    if "k \<in> set ?keys \<union> {?idx}" for k
    using that by auto
  have dirs: "{k. nodes ?s' k = Some Dir} = {''cases'', ''cases/CASE001'', ''cases/CASE001/raw''}"
  proof (rule set_eqI)
    fix k
    show "k \<in> {k. nodes ?s' k = Some Dir} \<longleftrightarrow>
          k \<in> {''cases'', ''cases/CASE001'', ''cases/CASE001/raw''}"
    proof (cases "k \<in> set ?keys \<union> {?idx}")
      case True
      from is_file [OF True] have "nodes ?s' k \<noteq> Some Dir" by auto
      moreover note apart [OF True]
      ultimately show ?thesis by simp
    next
      case False
      then have "k \<notin> set ?keys" "k \<noteq> ?idx" by blast+
      then have "nodes ?s' k = ?dirs k" by (rule elsewhere)
      then show ?thesis by (simp split: if_splits)
    qed
  qed
  have cont: "index_text (summary_head en ''mem.raw'' vol DEFAULT_PLUGINS @
                               map (summary_entry ?outdir) DEFAULT_PLUGINS) =
         join ''\<newline>''
            [''# Memory Forensics Triage '' @ em_dash @ '' '' @ strftime en,
             ''- Image: `mem.raw`'',
             ''- Volatility: `'' @ vol @ ''`'',
             ''- Plugins: windows.pslist, windows.pstree, windows.netscan, windows.dlllist, windows.cmdline, windows.malfind'',
             [],
             ''## Outputs'',
             ''- `cases/CASE001/raw/windows_pslist.txt`'',
             ''- `cases/CASE001/raw/windows_pstree.txt`'',
             ''- `cases/CASE001/raw/windows_netscan.txt`'',
             ''- `cases/CASE001/raw/windows_dlllist.txt`'',
             ''- `cases/CASE001/raw/windows_cmdline.txt`'',
             ''- `cases/CASE001/raw/windows_malfind.txt`''] @
          ''\<newline>\<newline>'' @ hints @ ''\<newline>''"
    unfolding default_entries index_text_def summary_head_def default_plugins_line
    by simp
  from at_idx have at_idx': "nodes ?s' ?idx =
       Some (File
         (join ''\<newline>''
            [''# Memory Forensics Triage '' @ em_dash @ '' '' @ strftime en,
             ''- Image: `mem.raw`'',
             ''- Volatility: `'' @ vol @ ''`'',
             ''- Plugins: windows.pslist, windows.pstree, windows.netscan, windows.dlllist, windows.cmdline, windows.malfind'',
             [],
             ''## Outputs'',
             ''- `cases/CASE001/raw/windows_pslist.txt`'',
             ''- `cases/CASE001/raw/windows_pstree.txt`'',
             ''- `cases/CASE001/raw/windows_netscan.txt`'',
             ''- `cases/CASE001/raw/windows_dlllist.txt`'',
             ''- `cases/CASE001/raw/windows_cmdline.txt`'',
             ''- `cases/CASE001/raw/windows_malfind.txt`''] @
          ''\<newline>\<newline>'' @ hints @ ''\<newline>''))"
    by (simp only: cont)
  show ?thesis
    by (intro conjI) (rule ex, rule files, rule dirs, rule at_idx')
qed

lemma find_vol_env_default: "find_vol env_default = Inr (Some ''vol'')"
  by (simp add: find_vol_def CANDIDATE_CMDS_def env_default_def)

text \<open>
  The theorem at an environment where \<open>vol\<close> is found and every plugin exits
  with status 0.
\<close>

theorem default_run_files_witness:
  "find_vol env_default = Inr (Some ''vol'') \<and> nodes fresh = Map.empty \<and>
   fst (main env_default cli_default fresh) = Exit 0 \<and>
   {k. \<exists>c. nodes (snd (main env_default cli_default fresh)) k = Some (File c)} =
       {''cases/CASE001/raw/windows_pslist.txt'', ''cases/CASE001/raw/windows_pstree.txt'',
        ''cases/CASE001/raw/windows_netscan.txt'', ''cases/CASE001/raw/windows_dlllist.txt'',
        ''cases/CASE001/raw/windows_cmdline.txt'', ''cases/CASE001/raw/windows_malfind.txt'',
        ''cases/CASE001/INDEX.md''}"
proof -
  have cp: "\<forall>p\<in>set DEFAULT_PLUGINS.
      \<exists>rc outp. spawn env_default [''vol'', ''-f'', ''mem.raw'', p] = Completed rc outp"
    by (simp add: env_default_def)
  have em: "nodes fresh = Map.empty" by (simp add: fresh_def)
  note t = default_run_files [OF find_vol_env_default cp em]
  show ?thesis
    by (intro conjI)
       (rule find_vol_env_default, rule em, rule conjunct1 [OF t],
        rule conjunct1 [OF conjunct2 [OF t]])
qed





end
